theory Spec2Isabelle
  imports Main
begin

section \<open>Document routes of the SurfSense backend\<close>

text \<open>
  A shallow embedding of \<^verbatim>\<open>surfsense_backend/app/routes/documents_routes.py\<close>.
  Each request handler is a function from its arguments and the state it touches (the
  database session, the background-task list, the local file system) to its outcome and the
  new state. A raised exception is the \<open>Inl\<close> side of a sum, and every \<^verbatim>\<open>except\<close>
  clause of the source is a function named after the handler it belongs to.
\<close>

subsection \<open>Exceptions and their text\<close>

text \<open>
  \<^verbatim>\<open>HTTPException\<close> is a subclass of \<^verbatim>\<open>Exception\<close>: a clause \<^verbatim>\<open>except Exception\<close>
  catches both constructors, a clause \<^verbatim>\<open>except HTTPException\<close> only the first.
  \<open>Exception\<close> stands for every other exception and carries its \<^verbatim>\<open>str(e)\<close>.
\<close>

datatype exn = HTTPException int string | Exception string

definition digit_char :: "nat \<Rightarrow> char" where
  "digit_char n = ''0123456789'' ! n"

fun str_nat :: "nat \<Rightarrow> string" where
  "str_nat n = (if n < 10 then [digit_char n] else str_nat (n div 10) @ [digit_char (n mod 10)])"

declare str_nat.simps [simp del]

definition str_int :: "int \<Rightarrow> string" where
  "str_int i = (if i < 0 then CHR ''-'' # str_nat (nat (- i)) else str_nat (nat i))"

text \<open>\<^verbatim>\<open>str(e)\<close>: Starlette renders an HTTPException as \<^verbatim>\<open>"{status_code}: {detail}"\<close>.\<close>

fun str_exn :: "exn \<Rightarrow> string" where
  "str_exn (HTTPException status_code detail) = str_int status_code @ '': '' @ detail"
| "str_exn (Exception msg) = msg"

subsection \<open>Data model\<close>

text \<open>
  Modelled from the spec: the enum \<^verbatim>\<open>DocumentType\<close> of \<^verbatim>\<open>app.db\<close> is not among the
  sources. The spec lists extension capture, crawled URL, file upload, YouTube video and
  further values; the further values are \<open>OTHER_TYPE\<close>.
\<close>

datatype DocumentType = EXTENSION | CRAWLED_URL | FILE | YOUTUBE_VIDEO | OTHER_TYPE string

record User =
  User_id :: string

record SearchSpace =
  SearchSpace_id :: int
  SearchSpace_user_id :: string

text \<open>The columns of \<^verbatim>\<open>Document\<close> that the handlers read.\<close>

record Document =
  Document_id :: int
  title :: string
  document_type :: DocumentType
  document_metadata :: "(string \<times> string) list"
  content :: string
  created_at :: int
  Document_search_space_id :: int

record DocumentRead =
  id_read :: int
  title_read :: string
  document_type_read :: DocumentType
  document_metadata_read :: "(string \<times> string) list"
  content_read :: string
  created_at_read :: int
  search_space_id_read :: int

text \<open>The conversion every read path performs field by field.\<close>

definition to_DocumentRead :: "Document \<Rightarrow> DocumentRead" where
  "to_DocumentRead doc =
     \<lparr> id_read = Document_id doc,
       title_read = title doc,
       document_type_read = document_type doc,
       document_metadata_read = document_metadata doc,
       content_read = content doc,
       created_at_read = created_at doc,
       search_space_id_read = Document_search_space_id doc \<rparr>"

text \<open>
  Modelled from the spec: the schema \<^verbatim>\<open>DocumentUpdate\<close> of \<^verbatim>\<open>app.schemas\<close> is not among
  the sources. Its fields are the mutable columns of a document; \<open>None\<close> is a field the
  request body did not set.
\<close>

record DocumentUpdate =
  update_title :: "string option"
  update_document_type :: "DocumentType option"
  update_document_metadata :: "(string \<times> string) list option"
  update_content :: "string option"
  update_search_space_id :: "int option"

text \<open>One item of the dict \<^verbatim>\<open>update_data\<close>: a key together with a value of its type.\<close>

datatype update_item =
    Set_title string
  | Set_document_type DocumentType
  | Set_document_metadata "(string \<times> string) list"
  | Set_content string
  | Set_search_space_id int

text \<open>\<^verbatim>\<open>document_update.model_dump(exclude_unset=True)\<close>: the set fields, in field order.\<close>

definition model_dump_exclude_unset :: "DocumentUpdate \<Rightarrow> update_item list" where
  "model_dump_exclude_unset u =
     (case update_title u of None \<Rightarrow> [] | Some v \<Rightarrow> [Set_title v]) @
     (case update_document_type u of None \<Rightarrow> [] | Some v \<Rightarrow> [Set_document_type v]) @
     (case update_document_metadata u of None \<Rightarrow> [] | Some v \<Rightarrow> [Set_document_metadata v]) @
     (case update_content u of None \<Rightarrow> [] | Some v \<Rightarrow> [Set_content v]) @
     (case update_search_space_id u of None \<Rightarrow> [] | Some v \<Rightarrow> [Set_search_space_id v])"

text \<open>\<^verbatim>\<open>setattr(db_document, key, value)\<close>.\<close>

fun setattr :: "Document \<Rightarrow> update_item \<Rightarrow> Document" where
  "setattr d (Set_title v) = d\<lparr>title := v\<rparr>"
| "setattr d (Set_document_type v) = d\<lparr>document_type := v\<rparr>"
| "setattr d (Set_document_metadata v) = d\<lparr>document_metadata := v\<rparr>"
| "setattr d (Set_content v) = d\<lparr>content := v\<rparr>"
| "setattr d (Set_search_space_id v) = d\<lparr>Document_search_space_id := v\<rparr>"

subsection \<open>The database session\<close>

text \<open>
  A session holds the rows as the session sees them (pending changes included), the rows as
  last committed, and the list of the session methods called so far. Rows are addressed by
  primary key, as the ORM's UPDATE and DELETE statements do.

  The queries of this file have no ORDER BY, so the database returns the rows in an order of
  its own choosing, which may differ from one query to the next. \<open>scan_key\<close> is that
  choice for the session's query: the rows come sorted by it.
\<close>

datatype db_call = Execute | Delete int | Commit | Rollback | Refresh int

record session =
  documents :: "Document list"
  search_spaces :: "SearchSpace list"
  persisted_documents :: "Document list"
  calls :: "db_call list"
  scan_key :: "Document \<Rightarrow> nat"

text \<open>
  Modelled from the spec: the table declarations of \<^verbatim>\<open>app.db\<close> are not among the sources.
  A document belongs to exactly one search space: \<^verbatim>\<open>Document.id\<close> is an SQL INTEGER
  primary key, and \<^verbatim>\<open>Document.search_space_id\<close> a foreign key into the search spaces,
  the one \<^verbatim>\<open>.join(SearchSpace)\<close> joins on. The driver refuses a query argument outside
  the column's 32 bits; OFFSET and LIMIT are 64-bit.
\<close>

definition int32_range :: "int \<Rightarrow> bool" where
  "int32_range i = (- 2147483648 \<le> i \<and> i \<le> 2147483647)"

definition int64_range :: "int \<Rightarrow> bool" where
  "int64_range i = (- 9223372036854775808 \<le> i \<and> i \<le> 9223372036854775807)"

definition called :: "db_call \<Rightarrow> session \<Rightarrow> session" where
  "called c s = s\<lparr>calls := calls s @ [c]\<rparr>"

text \<open>
  \<^verbatim>\<open>session.commit()\<close> flushes the pending changes and commits. The flush writes the rows
  that are new or changed, and the database refuses a row whose search space does not exist.
\<close>

definition foreign_keys_hold :: "session \<Rightarrow> bool" where
  "foreign_keys_hold s =
     list_all (\<lambda>d. d \<in> set (persisted_documents s) \<or>
                    Document_search_space_id d \<in> set (map SearchSpace_id (search_spaces s)))
       (documents s)"

definition commit :: "session \<Rightarrow> (exn + unit) \<times> session" where
  "commit s =
     (if foreign_keys_hold s
      then (Inr (), called Commit (s\<lparr>persisted_documents := documents s\<rparr>))
      else (Inl (Exception ''violates foreign key constraint''), called Commit s))"

definition rollback :: "session \<Rightarrow> session" where
  "rollback s = called Rollback (s\<lparr>documents := persisted_documents s\<rparr>)"

definition delete :: "Document \<Rightarrow> session \<Rightarrow> session" where
  "delete document s =
     called (Delete (Document_id document))
       (s\<lparr>documents := filter (\<lambda>d. Document_id d \<noteq> Document_id document) (documents s)\<rparr>)"

text \<open>An attribute assignment on an object attached to the session changes its row.\<close>

definition setattr_row :: "int \<Rightarrow> update_item \<Rightarrow> session \<Rightarrow> session" where
  "setattr_row pk item s =
     s\<lparr>documents := map (\<lambda>d. if Document_id d = pk then setattr d item else d) (documents s)\<rparr>"

text \<open>\<^verbatim>\<open>session.refresh(obj)\<close> reloads the row of the object's primary key, and raises
  when the row is gone.\<close>

definition refresh :: "int \<Rightarrow> session \<Rightarrow> (exn + Document) \<times> session" where
  "refresh pk s =
     (case find (\<lambda>d. Document_id d = pk) (documents s) of
        None \<Rightarrow> (Inl (Exception ''Could not refresh instance''), called (Refresh pk) s)
      | Some d \<Rightarrow> (Inr d, called (Refresh pk) s))"

text \<open>The documents in the order the database scans them for this session's query.\<close>

definition scanned_documents :: "session \<Rightarrow> Document list" where
  "scanned_documents s = sort_key (scan_key s) (documents s)"

text \<open>
  \<^verbatim>\<open>select(Document).join(SearchSpace)\<close>: the join is on the foreign key
  \<^verbatim>\<open>Document.search_space_id\<close>.
\<close>

definition select_Document_join_SearchSpace :: "session \<Rightarrow> (Document \<times> SearchSpace) list" where
  "select_Document_join_SearchSpace s =
     [(d, sp). d \<leftarrow> scanned_documents s, sp \<leftarrow> search_spaces s,
               Document_search_space_id d = SearchSpace_id sp]"

text \<open>\<^verbatim>\<open>result.scalars()\<close> keeps the first column; \<^verbatim>\<open>.first()\<close> is the first row or None.\<close>

definition scalars :: "(Document \<times> SearchSpace) list \<Rightarrow> Document list" where
  "scalars rows = map fst rows"

definition first :: "'a list \<Rightarrow> 'a option" where
  "first rows = (case rows of [] \<Rightarrow> None | r # _ \<Rightarrow> Some r)"

text \<open>
  The query of \<^verbatim>\<open>read_documents\<close>:
  \<^verbatim>\<open>.filter(SearchSpace.user_id == user.id).offset(skip).limit(limit)\<close>.
  The driver refuses an OFFSET or LIMIT outside 64 bits, and the database (PostgreSQL) a
  negative one; either way \<^verbatim>\<open>session.execute\<close> raises.
\<close>

definition execute_list_query ::
  "User \<Rightarrow> int \<Rightarrow> int \<Rightarrow> session \<Rightarrow> (exn + (Document \<times> SearchSpace) list) \<times> session" where
  "execute_list_query user skip limit s =
     (if \<not> int64_range skip \<or> \<not> int64_range limit
      then (Inl (Exception ''value out of int64 range''), called Execute s)
      else if skip < 0 then (Inl (Exception ''OFFSET must not be negative''), called Execute s)
      else if limit < 0 then (Inl (Exception ''LIMIT must not be negative''), called Execute s)
      else (Inr (take (nat limit) (drop (nat skip)
                  (filter (\<lambda>(d, sp). SearchSpace_user_id sp = User_id user)
                     (select_Document_join_SearchSpace s)))),
            called Execute s))"

text \<open>
  The query of \<^verbatim>\<open>read_document\<close>, \<^verbatim>\<open>update_document\<close> and \<^verbatim>\<open>delete_document\<close>:
  \<^verbatim>\<open>.filter(Document.id == document_id, SearchSpace.user_id == user.id)\<close>.
  \<^verbatim>\<open>session.execute\<close> raises for an id outside the range of the id column.
\<close>

definition execute_document_query ::
  "int \<Rightarrow> User \<Rightarrow> session \<Rightarrow> (exn + (Document \<times> SearchSpace) list) \<times> session" where
  "execute_document_query document_id user s =
     (if \<not> int32_range document_id
      then (Inl (Exception ''value out of int32 range''), called Execute s)
      else (Inr (filter (\<lambda>(d, sp). Document_id d = document_id \<and>
                                  SearchSpace_user_id sp = User_id user)
                   (select_Document_join_SearchSpace s)),
            called Execute s))"

text \<open>
  Modelled from the spec: \<^verbatim>\<open>check_ownership\<close> of \<^verbatim>\<open>app.utils.check_ownership\<close> is not
  among the sources. The caller must own the search space, else the check fails with an
  ownership/authorization error that carries its own status; 403 stands for that status.
\<close>

definition check_ownership :: "session \<Rightarrow> int \<Rightarrow> User \<Rightarrow> (exn + SearchSpace) \<times> session" where
  "check_ownership s item_id user =
     (case filter (\<lambda>sp. SearchSpace_id sp = item_id \<and> SearchSpace_user_id sp = User_id user)
             (search_spaces s) of
        [] \<Rightarrow> (Inl (HTTPException 403 ''Not authorized to access this search space''),
               called Execute s)
      | sp # _ \<Rightarrow> (Inr sp, called Execute s))"

subsection \<open>Read, update and delete handlers\<close>

text \<open>
  Query parameters of \<^verbatim>\<open>GET /documents/\<close>: \<^verbatim>\<open>skip: int = 0\<close>, \<^verbatim>\<open>limit: int = 300\<close>.
  \<open>None\<close> is a parameter the request does not give.
\<close>

definition read_documents_except :: "exn \<Rightarrow> session \<Rightarrow> (exn + DocumentRead list) \<times> session" where
  "read_documents_except e s =
     (Inl (HTTPException 500 (''Failed to fetch documents: '' @ str_exn e)), s)"

definition read_documents ::
  "int option \<Rightarrow> int option \<Rightarrow> session \<Rightarrow> User \<Rightarrow> (exn + DocumentRead list) \<times> session" where
  "read_documents skip_param limit_param s user =
     (let skip = (case skip_param of None \<Rightarrow> 0 | Some v \<Rightarrow> v);
          limit = (case limit_param of None \<Rightarrow> 300 | Some v \<Rightarrow> v)
      in case execute_list_query user skip limit s of
           (Inl e, s1) \<Rightarrow> read_documents_except e s1
         | (Inr result, s1) \<Rightarrow> (Inr (map to_DocumentRead (scalars result)), s1))"

text \<open>
  \<^verbatim>\<open>read_document\<close> has the single clause \<^verbatim>\<open>except Exception as e\<close>: it also catches the
  HTTPException raised inside the \<^verbatim>\<open>try\<close> block.
\<close>

definition read_document_except :: "exn \<Rightarrow> session \<Rightarrow> (exn + DocumentRead) \<times> session" where
  "read_document_except e s =
     (Inl (HTTPException 500 (''Failed to fetch document: '' @ str_exn e)), s)"

definition read_document :: "int \<Rightarrow> session \<Rightarrow> User \<Rightarrow> (exn + DocumentRead) \<times> session" where
  "read_document document_id s user =
     (case execute_document_query document_id user s of
        (Inl e, s1) \<Rightarrow> read_document_except e s1
      | (Inr result, s1) \<Rightarrow>
          (case first (scalars result) of
             None \<Rightarrow>
               read_document_except
                 (HTTPException 404 (''Document with id '' @ str_int document_id @ '' not found'')) s1
           | Some document \<Rightarrow> (Inr (to_DocumentRead document), s1)))"

text \<open>\<^verbatim>\<open>except HTTPException: raise\<close>, then \<^verbatim>\<open>except Exception as e\<close> with a rollback.\<close>

fun update_document_except :: "exn \<Rightarrow> session \<Rightarrow> (exn + DocumentRead) \<times> session" where
  "update_document_except (HTTPException status_code detail) s =
     (Inl (HTTPException status_code detail), s)"
| "update_document_except (Exception msg) s =
     (Inl (HTTPException 500 (''Failed to update document: '' @ str_exn (Exception msg))),
      rollback s)"

definition update_document ::
  "int \<Rightarrow> DocumentUpdate \<Rightarrow> session \<Rightarrow> User \<Rightarrow> (exn + DocumentRead) \<times> session" where
  "update_document document_id document_update s user =
     (case execute_document_query document_id user s of
        (Inl e, s1) \<Rightarrow> update_document_except e s1
      | (Inr result, s1) \<Rightarrow>
          (case first (scalars result) of
             None \<Rightarrow>
               update_document_except
                 (HTTPException 404 (''Document with id '' @ str_int document_id @ '' not found'')) s1
           | Some db_document \<Rightarrow>
               (let update_data = model_dump_exclude_unset document_update;
                    s2 = fold (setattr_row (Document_id db_document)) update_data s1
                in case commit s2 of
                     (Inl e, s3) \<Rightarrow> update_document_except e s3
                   | (Inr _, s3) \<Rightarrow>
                       (case refresh (Document_id db_document) s3 of
                          (Inl e, s4) \<Rightarrow> update_document_except e s4
                        | (Inr refreshed, s4) \<Rightarrow> (Inr (to_DocumentRead refreshed), s4)))))"

type_synonym message = "(string \<times> string) list"

fun delete_document_except :: "exn \<Rightarrow> session \<Rightarrow> (exn + message) \<times> session" where
  "delete_document_except (HTTPException status_code detail) s =
     (Inl (HTTPException status_code detail), s)"
| "delete_document_except (Exception msg) s =
     (Inl (HTTPException 500 (''Failed to delete document: '' @ str_exn (Exception msg))),
      rollback s)"

definition delete_document :: "int \<Rightarrow> session \<Rightarrow> User \<Rightarrow> (exn + message) \<times> session" where
  "delete_document document_id s user =
     (case execute_document_query document_id user s of
        (Inl e, s1) \<Rightarrow> delete_document_except e s1
      | (Inr result, s1) \<Rightarrow>
          (case first (scalars result) of
             None \<Rightarrow>
               delete_document_except
                 (HTTPException 404 (''Document with id '' @ str_int document_id @ '' not found'')) s1
           | Some document \<Rightarrow>
               (case commit (delete document s1) of
                  (Inl e, s2) \<Rightarrow> delete_document_except e s2
                | (Inr _, s2) \<Rightarrow> (Inr [(''message'', ''Document deleted successfully'')], s2))))"

subsection \<open>Submission handlers\<close>

text \<open>
  Modelled from the spec: the schema \<^verbatim>\<open>DocumentsCreate\<close> of \<^verbatim>\<open>app.schemas\<close> is not among
  the sources. The body is \<^verbatim>\<open>{document_type, content: [...], search_space_id}\<close>; the type of
  a content item is left open.
\<close>

record 'c DocumentsCreate =
  request_document_type :: DocumentType
  request_content :: "'c list"
  request_search_space_id :: int

text \<open>A scheduled call: the function given to \<^verbatim>\<open>add_task\<close> with its arguments.\<close>

datatype 'c background_task =
    process_extension_document_with_new_session 'c int
  | process_crawled_url_with_new_session 'c int
  | process_youtube_video_with_new_session 'c int
  | process_file_in_background_with_new_session string "string option" int

definition add_task :: "'c background_task list \<Rightarrow> 'c background_task \<Rightarrow> 'c background_task list" where
  "add_task tasks t = tasks @ [t]"

fun create_documents_except ::
  "exn \<Rightarrow> session \<Rightarrow> 'c background_task list \<Rightarrow> (exn + message) \<times> session \<times> 'c background_task list" where
  "create_documents_except (HTTPException status_code detail) s tasks =
     (Inl (HTTPException status_code detail), s, tasks)"
| "create_documents_except (Exception msg) s tasks =
     (Inl (HTTPException 500 (''Failed to process documents: '' @ str_exn (Exception msg))),
      rollback s, tasks)"

text \<open>The commit after the loop, under the handler's \<^verbatim>\<open>except\<close> clauses.\<close>

definition commit_and_return ::
  "string \<Rightarrow> session \<Rightarrow> 'c background_task list \<Rightarrow>
     (exn + message) \<times> session \<times> 'c background_task list" where
  "commit_and_return text s tasks =
     (case commit s of
        (Inl e, s1) \<Rightarrow> create_documents_except e s1 tasks
      | (Inr _, s1) \<Rightarrow> (Inr [(''message'', text)], s1, tasks))"

definition create_documents ::
  "'c DocumentsCreate \<Rightarrow> session \<Rightarrow> User \<Rightarrow> 'c background_task list \<Rightarrow>
     (exn + message) \<times> session \<times> 'c background_task list" where
  "create_documents request s user fastapi_background_tasks =
     (case check_ownership s (request_search_space_id request) user of
        (Inl e, s1) \<Rightarrow> create_documents_except e s1 fastapi_background_tasks
      | (Inr _, s1) \<Rightarrow>
          if request_document_type request = EXTENSION then
            commit_and_return ''Documents processed successfully'' s1
              (foldl (\<lambda>tasks individual_document.
                        add_task tasks (process_extension_document_with_new_session
                                          individual_document (request_search_space_id request)))
                 fastapi_background_tasks (request_content request))
          else if request_document_type request = CRAWLED_URL then
            commit_and_return ''Documents processed successfully'' s1
              (foldl (\<lambda>tasks url.
                        add_task tasks (process_crawled_url_with_new_session
                                          url (request_search_space_id request)))
                 fastapi_background_tasks (request_content request))
          else if request_document_type request = YOUTUBE_VIDEO then
            commit_and_return ''Documents processed successfully'' s1
              (foldl (\<lambda>tasks url.
                        add_task tasks (process_youtube_video_with_new_session
                                          url (request_search_space_id request)))
                 fastapi_background_tasks (request_content request))
          else
            create_documents_except (HTTPException 400 ''Invalid document type'') s1
              fastapi_background_tasks)"

subsection \<open>File upload\<close>

text \<open>
  An uploaded file: its name as the client sent it (absent names are None) and what
  \<^verbatim>\<open>await file.read()\<close> does, which is to return the buffered content or to raise.
\<close>

record UploadFile =
  filename :: "string option"
  read_outcome :: "exn + string"

text \<open>
  The local file system: path to content, and the counter behind unique temporary names.
  \<open>open_error\<close> and \<open>write_error\<close> are what the operating system answers when a file
  is created at a path and when data is written to it: None, or the text of the error it
  raises (no space left, permission denied, ...).
\<close>

record filesystem =
  fs_files :: "string \<rightharpoonup> string"
  tmp_counter :: nat
  open_error :: "string \<Rightarrow> string option"
  write_error :: "string \<Rightarrow> string \<Rightarrow> string option"

text \<open>
  \<^verbatim>\<open>os.path.splitext(p)[1]\<close>: the text from the last dot of the last path component, when
  a character other than a dot comes before it; a \<^verbatim>\<open>TypeError\<close> when \<^verbatim>\<open>p\<close> is None.
\<close>

definition splitext_ext :: "string option \<Rightarrow> exn + string" where
  "splitext_ext p =
     (case p of
        None \<Rightarrow> Inl (Exception ''expected str, bytes or os.PathLike object, not NoneType'')
      | Some name \<Rightarrow>
          (let base = rev (takeWhile (\<lambda>c. c \<noteq> CHR ''/'') (rev name));
               ext_rev = takeWhile (\<lambda>c. c \<noteq> CHR ''.'') (rev base);
               stem = take (length base - length ext_rev - 1) base
           in if CHR ''.'' \<in> set base \<and> (\<exists>c \<in> set stem. c \<noteq> CHR ''.'')
              then Inr (CHR ''.'' # rev ext_rev) else Inr []))"

text \<open>The eight characters that make a temporary name unique: here the counter, zero-padded.\<close>

definition unique_characters :: "nat \<Rightarrow> string" where
  "unique_characters n =
     replicate (8 - length (str_nat (n mod 100000000))) (CHR ''0'') @ str_nat (n mod 100000000)"

text \<open>
  \<^verbatim>\<open>tempfile.NamedTemporaryFile(delete=False, suffix=...)\<close>: a new empty file that stays,
  named \<^verbatim>\<open>tmp\<close>, eight characters and the suffix. It raises when the name is longer than
  the 255 bytes a file name may have, and when the operating system refuses the file.
\<close>

definition NamedTemporaryFile :: "string \<Rightarrow> filesystem \<Rightarrow> (exn + string) \<times> filesystem" where
  "NamedTemporaryFile suffix fs =
     (let name = ''tmp'' @ unique_characters (tmp_counter fs) @ suffix;
          temp_path = ''/tmp/'' @ name
      in if 255 < length name
         then (Inl (Exception (''[Errno 36] File name too long: '' @ temp_path)), fs)
         else (case open_error fs temp_path of
                 Some msg \<Rightarrow> (Inl (Exception msg), fs)
               | None \<Rightarrow>
                   (Inr temp_path,
                    fs\<lparr>fs_files := (fs_files fs)(temp_path \<mapsto> []),
                       tmp_counter := Suc (tmp_counter fs)\<rparr>)))"

text \<open>\<^verbatim>\<open>with open(temp_path, "wb") as f: f.write(content)\<close>.\<close>

definition write_file :: "string \<Rightarrow> string \<Rightarrow> filesystem \<Rightarrow> exn + filesystem" where
  "write_file path data fs =
     (case write_error fs path data of
        Some msg \<Rightarrow> Inl (Exception msg)
      | None \<Rightarrow> Inr (fs\<lparr>fs_files := (fs_files fs)(path \<mapsto> data)\<rparr>))"

text \<open>\<^verbatim>\<open>os.unlink(path)\<close> raises when there is no such file.\<close>

definition os_unlink :: "string \<Rightarrow> filesystem \<Rightarrow> exn + filesystem" where
  "os_unlink path fs =
     (case fs_files fs path of
        None \<Rightarrow> Inl (Exception (''[Errno 2] No such file or directory: '' @ path))
      | Some _ \<Rightarrow> Inr (fs\<lparr>fs_files := (fs_files fs)(path := None)\<rparr>))"

text \<open>The body of the inner \<^verbatim>\<open>try\<close> for one file; the state it leaves is returned on failure too.\<close>

definition stage_file ::
  "UploadFile \<Rightarrow> int \<Rightarrow> filesystem \<Rightarrow> 'c background_task list \<Rightarrow>
     (exn + unit) \<times> filesystem \<times> 'c background_task list" where
  "stage_file file search_space_id fs tasks =
     (case splitext_ext (filename file) of
        Inl e \<Rightarrow> (Inl e, fs, tasks)
      | Inr suffix \<Rightarrow>
          (case NamedTemporaryFile suffix fs of
             (Inl e, fs1) \<Rightarrow> (Inl e, fs1, tasks)
           | (Inr temp_path, fs1) \<Rightarrow>
               (case read_outcome file of
                  Inl e \<Rightarrow> (Inl e, fs1, tasks)
                | Inr data \<Rightarrow>
                    (case write_file temp_path data fs1 of
                       Inl e \<Rightarrow> (Inl e, fs1, tasks)
                     | Inr fs2 \<Rightarrow>
                         (Inr (), fs2,
                          add_task tasks (process_file_in_background_with_new_session
                                            temp_path (filename file) search_space_id))))))"

text \<open>An f-string renders a None filename as \<^verbatim>\<open>None\<close>.\<close>

definition str_filename :: "string option \<Rightarrow> string" where
  "str_filename name = (case name of None \<Rightarrow> ''None'' | Some n \<Rightarrow> n)"

text \<open>
  \<^verbatim>\<open>for file in files\<close>: the inner \<^verbatim>\<open>except Exception as e\<close> raises the 422, which leaves
  the loop.
\<close>

fun fileupload_loop ::
  "UploadFile list \<Rightarrow> int \<Rightarrow> filesystem \<Rightarrow> 'c background_task list \<Rightarrow>
     (exn + unit) \<times> filesystem \<times> 'c background_task list" where
  "fileupload_loop [] search_space_id fs tasks = (Inr (), fs, tasks)"
| "fileupload_loop (file # files) search_space_id fs tasks =
     (case stage_file file search_space_id fs tasks of
        (Inl e, fs1, tasks1) \<Rightarrow>
          (Inl (HTTPException 422
                  (''Failed to process file '' @ str_filename (filename file) @ '': '' @ str_exn e)),
           fs1, tasks1)
      | (Inr _, fs1, tasks1) \<Rightarrow> fileupload_loop files search_space_id fs1 tasks1)"

fun fileupload_except ::
  "exn \<Rightarrow> session \<Rightarrow> filesystem \<Rightarrow> 'c background_task list \<Rightarrow>
     (exn + message) \<times> session \<times> filesystem \<times> 'c background_task list" where
  "fileupload_except (HTTPException status_code detail) s fs tasks =
     (Inl (HTTPException status_code detail), s, fs, tasks)"
| "fileupload_except (Exception msg) s fs tasks =
     (Inl (HTTPException 500 (''Failed to upload files: '' @ str_exn (Exception msg))),
      rollback s, fs, tasks)"

text \<open>The handler of \<^verbatim>\<open>POST /documents/fileupload\<close> (the source's second \<^verbatim>\<open>create_documents\<close>).\<close>

definition create_documents_fileupload ::
  "UploadFile list \<Rightarrow> int \<Rightarrow> session \<Rightarrow> User \<Rightarrow> filesystem \<Rightarrow> 'c background_task list \<Rightarrow>
     (exn + message) \<times> session \<times> filesystem \<times> 'c background_task list" where
  "create_documents_fileupload files search_space_id s user fs fastapi_background_tasks =
     (case check_ownership s search_space_id user of
        (Inl e, s1) \<Rightarrow> fileupload_except e s1 fs fastapi_background_tasks
      | (Inr _, s1) \<Rightarrow>
          if files = [] then
            fileupload_except (HTTPException 400 ''No files provided'') s1 fs
              fastapi_background_tasks
          else
            (case fileupload_loop files search_space_id fs fastapi_background_tasks of
               (Inl e, fs1, tasks1) \<Rightarrow> fileupload_except e s1 fs1 tasks1
             | (Inr _, fs1, tasks1) \<Rightarrow>
                 (case commit s1 of
                    (Inl e, s2) \<Rightarrow> fileupload_except e s2 fs1 tasks1
                  | (Inr _, s2) \<Rightarrow>
                      (Inr [(''message'', ''Files uploaded for processing'')], s2, fs1, tasks1))))"

text \<open>
  The endpoint as a request reaches it. \<^verbatim>\<open>files: list[UploadFile]\<close> has no default, so the
  framework's validation of the form answers a request without file parts with a 422 and
  does not call the handler.
\<close>

definition fileupload_endpoint ::
  "UploadFile list \<Rightarrow> int \<Rightarrow> session \<Rightarrow> User \<Rightarrow> filesystem \<Rightarrow> 'c background_task list \<Rightarrow>
     (exn + message) \<times> session \<times> filesystem \<times> 'c background_task list" where
  "fileupload_endpoint files search_space_id s user fs fastapi_background_tasks =
     (if files = [] then
        (Inl (HTTPException 422 ''Field required''), s, fs, fastapi_background_tasks)
      else
        create_documents_fileupload files search_space_id s user fs fastapi_background_tasks)"

subsection \<open>File ingestion in the background\<close>

text \<open>
  \<open>loader_load\<close> is \<^verbatim>\<open>UnstructuredFileLoader(file_path, ...).load()\<close> of the partitioning
  library, and \<open>add_received_file_document\<close> the ingestion routine of
  \<^verbatim>\<open>app.tasks.background_tasks\<close>; neither is among the sources, so both are parameters.
  The last component of the state is what \<^verbatim>\<open>logging.error\<close> has written.
\<close>

definition process_file_in_background ::
  "(filesystem \<Rightarrow> string \<Rightarrow> exn + 'd) \<Rightarrow>
   (session \<Rightarrow> string \<Rightarrow> 'd \<Rightarrow> int \<Rightarrow> (exn + unit) \<times> session) \<Rightarrow>
   string \<Rightarrow> string \<Rightarrow> int \<Rightarrow> session \<Rightarrow> filesystem \<Rightarrow> string list \<Rightarrow>
     session \<times> filesystem \<times> string list" where
  "process_file_in_background loader_load add_received_file_document
       file_path file_name search_space_id s fs log =
     (case loader_load fs file_path of
        Inl e \<Rightarrow> (s, fs, log @ [''Error processing file in background: '' @ str_exn e])
      | Inr docs \<Rightarrow>
          (let fs1 = (case os_unlink file_path fs of Inl _ \<Rightarrow> fs | Inr fs' \<Rightarrow> fs')
           in case add_received_file_document s file_name docs search_space_id of
                (Inl e, s1) \<Rightarrow>
                  (s1, fs1, log @ [''Error processing file in background: '' @ str_exn e])
              | (Inr _, s1) \<Rightarrow> (s1, fs1, log)))"

subsection \<open>Ownership\<close>

text \<open>
  A document is owned by a user when its search space is one of the user's: the
  access-control boundary of the data model, stated on the tables and not on the queries.
\<close>

definition owned_by :: "session \<Rightarrow> User \<Rightarrow> Document \<Rightarrow> bool" where
  "owned_by s user d =
     (\<exists>sp \<in> set (search_spaces s).
        SearchSpace_id sp = Document_search_space_id d \<and> SearchSpace_user_id sp = User_id user)"

text \<open>The user's documents in the order the database returns them, each once.\<close>

definition owned_documents :: "session \<Rightarrow> User \<Rightarrow> Document list" where
  "owned_documents s user = filter (owned_by s user) (scanned_documents s)"

text \<open>What \<open>scalars\<close> makes of the rows of the single-document query.\<close>

definition selected_documents :: "int \<Rightarrow> User \<Rightarrow> session \<Rightarrow> Document list" where
  "selected_documents document_id user s =
     scalars (filter (\<lambda>(d, sp). Document_id d = document_id \<and>
                               SearchSpace_user_id sp = User_id user)
                (select_Document_join_SearchSpace s))"

text \<open>Primary keys are unique in both tables.\<close>

definition primary_keys_unique :: "session \<Rightarrow> bool" where
  "primary_keys_unique s =
     (distinct (map Document_id (documents s)) \<and> distinct (map SearchSpace_id (search_spaces s)))"

subsection \<open>Example data\<close>

definition alice :: User where
  "alice = \<lparr>User_id = ''alice''\<rparr>"

definition bob :: User where
  "bob = \<lparr>User_id = ''bob''\<rparr>"

definition example_document :: "int \<Rightarrow> int \<Rightarrow> Document" where
  "example_document i sp =
     \<lparr>Document_id = i, title = ''notes'', document_type = FILE, document_metadata = [],
      content = ''text'', created_at = 0, Document_search_space_id = sp\<rparr>"

definition example_spaces :: "SearchSpace list" where
  "example_spaces =
     [\<lparr>SearchSpace_id = 1, SearchSpace_user_id = ''alice''\<rparr>,
      \<lparr>SearchSpace_id = 2, SearchSpace_user_id = ''bob''\<rparr>]"

text \<open>Documents 1 and 3 are in alice's search space, document 2 in bob's.\<close>

definition example_session :: session where
  "example_session =
     \<lparr>documents = [example_document 1 1, example_document 2 2, example_document 3 1],
      search_spaces = example_spaces,
      persisted_documents = [example_document 1 1, example_document 2 2, example_document 3 1],
      calls = [],
      scan_key = (\<lambda>d. nat (Document_id d))\<rparr>"

text \<open>Five documents of alice's with one of bob's among them.\<close>

definition five_session :: session where
  "five_session =
     \<lparr>documents = [example_document 1 1, example_document 2 1, example_document 3 2,
                   example_document 4 1, example_document 5 1, example_document 6 1],
      search_spaces = example_spaces,
      persisted_documents = [example_document 1 1, example_document 2 1, example_document 3 2,
                   example_document 4 1, example_document 5 1, example_document 6 1],
      calls = [],
      scan_key = (\<lambda>d. nat (Document_id d))\<rparr>"

text \<open>The same tables, with the database returning the rows by descending id.\<close>

definition five_session_rescanned :: session where
  "five_session_rescanned = five_session\<lparr>scan_key := (\<lambda>d. nat (10 - Document_id d))\<rparr>"

definition title_only :: DocumentUpdate where
  "title_only =
     \<lparr>update_title = Some ''renamed'', update_document_type = None,
      update_document_metadata = None, update_content = None, update_search_space_id = None\<rparr>"

definition move_to_space :: "int \<Rightarrow> DocumentUpdate" where
  "move_to_space v =
     \<lparr>update_title = None, update_document_type = None,
      update_document_metadata = None, update_content = None, update_search_space_id = Some v\<rparr>"

definition file_request :: "int \<Rightarrow> string DocumentsCreate" where
  "file_request sp =
     \<lparr>request_document_type = FILE, request_content = [''a.pdf''], request_search_space_id = sp\<rparr>"

definition report_file :: UploadFile where
  "report_file = \<lparr>filename = Some ''report.pdf'', read_outcome = Inr ''%PDF-1.7''\<rparr>"

text \<open>A file whose name has an extension of 300 characters.\<close>

definition long_extension :: string where
  "long_extension = CHR ''.'' # replicate 300 (CHR ''x'')"

definition long_extension_file :: UploadFile where
  "long_extension_file =
     \<lparr>filename = Some (''scan'' @ long_extension), read_outcome = Inr ''data''\<rparr>"

definition empty_fs :: filesystem where
  "empty_fs = \<lparr>fs_files = Map.empty, tmp_counter = 0,
              open_error = (\<lambda>path. None), write_error = (\<lambda>path data. None)\<rparr>"

definition staged_fs :: filesystem where
  "staged_fs = \<lparr>fs_files = [''/tmp/tmp0.pdf'' \<mapsto> ''%PDF-1.7''], tmp_counter = 1,
               open_error = (\<lambda>path. None), write_error = (\<lambda>path data. None)\<rparr>"

text \<open>The file system after \<open>report_file\<close> has been staged on the empty one.\<close>

definition report_staged_fs :: filesystem where
  "report_staged_fs =
     \<lparr>fs_files = [''/tmp/tmp00000000.pdf'' \<mapsto> ''%PDF-1.7''], tmp_counter = 1,
      open_error = (\<lambda>path. None), write_error = (\<lambda>path data. None)\<rparr>"

text \<open>A file system with no space left: every write is refused.\<close>

definition full_fs :: filesystem where
  "full_fs = \<lparr>fs_files = Map.empty, tmp_counter = 0,
             open_error = (\<lambda>path. None),
             write_error = (\<lambda>path data. Some ''[Errno 28] No space left on device'')\<rparr>"

text \<open>A loader that raises, a loader that returns the file's content, an ingestion that succeeds.\<close>

definition failing_loader :: "filesystem \<Rightarrow> string \<Rightarrow> exn + string list" where
  "failing_loader fs path = Inl (Exception ''unsupported file type'')"

definition reading_loader :: "filesystem \<Rightarrow> string \<Rightarrow> exn + string list" where
  "reading_loader fs path =
     (case fs_files fs path of
        None \<Rightarrow> Inl (Exception ''file not found'')
      | Some data \<Rightarrow> Inr [data])"

definition constant_loader :: "filesystem \<Rightarrow> string \<Rightarrow> exn + string list" where
  "constant_loader fs path = Inr [''element'']"

definition accepting_ingestion :: "session \<Rightarrow> string \<Rightarrow> string list \<Rightarrow> int \<Rightarrow> (exn + unit) \<times> session" where
  "accepting_ingestion s name docs sp = (Inr (), s)"

section \<open>Properties\<close>

subsection \<open>What the queries select\<close>

lemma first_None_iff: "first xs = None \<longleftrightarrow> xs = []"
  by (cases xs) (simp_all add: first_def)

lemma first_SomeD: "first xs = Some x \<Longrightarrow> x \<in> set xs"
  by (cases xs) (simp_all add: first_def)

lemma first_unique:
  assumes "x \<in> set xs" and "\<And>y. y \<in> set xs \<Longrightarrow> y = x"
  shows "first xs = Some x"
proof (cases xs)
  case Nil
  with assms(1) show ?thesis by simp
next
  case (Cons y ys)
  then have "y = x" using assms(2) [of y] by simp
  with Cons show ?thesis by (simp add: first_def)
qed

lemma unique_key_eq:
  assumes "distinct (map f xs)" and "x \<in> set xs" and "y \<in> set xs" and "f x = f y"
  shows "x = y"
proof -
  from assms(1) have "inj_on f (set xs)"
    by (simp add: distinct_map)
  from this assms(4,2,3) show ?thesis
    by (rule inj_onD)
qed

lemma set_scanned_documents: "set (scanned_documents s) = set (documents s)"
  by (simp add: scanned_documents_def)

lemma set_select_join:
  "set (select_Document_join_SearchSpace s) =
     {(d, sp). d \<in> set (documents s) \<and> sp \<in> set (search_spaces s) \<and>
               Document_search_space_id d = SearchSpace_id sp}"
  by (auto simp: select_Document_join_SearchSpace_def set_scanned_documents)

lemma selected_iff:
  "d \<in> set (selected_documents k u s) \<longleftrightarrow>
     d \<in> set (documents s) \<and> Document_id d = k \<and> owned_by s u d"
  by (force simp: selected_documents_def scalars_def set_select_join owned_by_def image_iff)

lemma execute_document_query_in_range:
  assumes "int32_range k"
  shows "\<exists>rows. execute_document_query k u s = (Inr rows, called Execute s) \<and>
                scalars rows = selected_documents k u s"
  using assms by (simp add: execute_document_query_def selected_documents_def)

lemma execute_document_query_out_of_range:
  assumes "\<not> int32_range k"
  shows "execute_document_query k u s =
           (Inl (Exception ''value out of int32 range''), called Execute s)"
  using assms by (simp add: execute_document_query_def)

lemma selected_none:
  assumes "\<not> (\<exists>d \<in> set (documents s). Document_id d = k \<and> owned_by s user d)"
  shows "first (selected_documents k user s) = None"
proof -
  have "selected_documents k user s = []"
  proof (rule ccontr)
    assume "selected_documents k user s \<noteq> []"
    then obtain d where "d \<in> set (selected_documents k user s)"
      by (cases "selected_documents k user s") auto
    with assms show False
      unfolding selected_iff by blast
  qed
  then show ?thesis
    by (simp add: first_None_iff)
qed

lemma selected_some:
  assumes "distinct (map Document_id (documents s))"
    and "d0 \<in> set (documents s)" and "Document_id d0 = k" and "owned_by s user d0"
  shows "first (selected_documents k user s) = Some d0"
proof (rule first_unique)
  show "d0 \<in> set (selected_documents k user s)"
    unfolding selected_iff using assms(2-4) by blast
next
  fix y
  assume "y \<in> set (selected_documents k user s)"
  then have y: "y \<in> set (documents s)" and "Document_id y = k"
    unfolding selected_iff by blast+
  then have "Document_id y = Document_id d0"
    using assms(3) by simp
  with assms(1) y assms(2) show "y = d0"
    by (rule unique_key_eq)
qed

lemma list_query_owned:
  assumes "execute_list_query u skip limit s = (Inr rows, s')"
    and "d \<in> set (scalars rows)"
  shows "d \<in> set (documents s) \<and> owned_by s u d"
proof -
  from assms(1) have rows: "rows = take (nat limit) (drop (nat skip)
        (filter (\<lambda>(d, sp). SearchSpace_user_id sp = User_id u)
           (select_Document_join_SearchSpace s)))"
    by (simp add: execute_list_query_def split: if_splits)
  from assms(2) obtain sp where "(d, sp) \<in> set rows"
    by (auto simp: scalars_def)
  then have "(d, sp) \<in> set (filter (\<lambda>(d, sp). SearchSpace_user_id sp = User_id u)
                              (select_Document_join_SearchSpace s))"
    unfolding rows by (meson in_set_takeD in_set_dropD)
  then show ?thesis
    by (auto simp: set_select_join owned_by_def)
qed

lemma owned_or_missing:
  obtains (owned) d0 where "d0 \<in> set (documents s)" "Document_id d0 = k" "owned_by s user d0"
  | (missing) "\<not> (\<exists>d \<in> set (documents s). Document_id d = k \<and> owned_by s user d)"
  by blast

subsection \<open>Reading a document that is missing or not owned\<close>

text \<open>
  C2. \<^verbatim>\<open>GET /documents/{id}\<close> for an id with no document owned by the requesting user: the
  404 raised inside the \<^verbatim>\<open>try\<close> block is caught by the handler's only clause,
  \<^verbatim>\<open>except Exception\<close>, and leaves the endpoint as a 500 whose detail quotes the 404.
  Here alice asks for document 2, which is in bob's search space.
\<close>

theorem read_document_not_owned_is_500:
  "fst (read_document 2 example_session alice) =
     Inl (HTTPException 500 ''Failed to fetch document: 404: Document with id 2 not found'')"
  by (simp add: read_document_def execute_document_query_def int32_range_def
      select_Document_join_SearchSpace_def scanned_documents_def example_session_def
      example_spaces_def alice_def example_document_def first_def scalars_def
      read_document_except_def str_int_def str_nat.simps digit_char_def)

text \<open>The same for every id the query accepts: the status is 500 whenever nothing is selected.\<close>

lemma read_document_missing_500:
  assumes "int32_range document_id"
    and "\<not> (\<exists>d \<in> set (documents s). Document_id d = document_id \<and> owned_by s user d)"
  shows "fst (read_document document_id s user) =
     Inl (HTTPException 500 (''Failed to fetch document: '' @
            str_exn (HTTPException 404 (''Document with id '' @ str_int document_id @ '' not found''))))"
proof -
  from execute_document_query_in_range [OF assms(1)] obtain rows
    where q: "execute_document_query document_id user s = (Inr rows, called Execute s)"
      and rows: "scalars rows = selected_documents document_id user s"
    by blast
  from selected_none [OF assms(2)] show ?thesis
    by (simp add: read_document_def q rows read_document_except_def)
qed

subsection \<open>Deleting a document that is missing or not owned\<close>

lemma delete_document_missing:
  assumes "int32_range k"
    and "\<not> (\<exists>d \<in> set (documents s). Document_id d = k \<and> owned_by s user d)"
  shows "delete_document k s user =
     (Inl (HTTPException 404 (''Document with id '' @ str_int k @ '' not found'')), called Execute s)"
proof -
  from execute_document_query_in_range [OF assms(1)] obtain rows
    where q: "execute_document_query k user s = (Inr rows, called Execute s)"
      and rows: "scalars rows = selected_documents k user s"
    by blast
  from selected_none [OF assms(2)] show ?thesis
    by (simp add: delete_document_def q rows)
qed

lemma delete_document_out_of_range:
  assumes "\<not> int32_range k"
  shows "delete_document k s user =
     (Inl (HTTPException 500 ''Failed to delete document: value out of int32 range''),
      rollback (called Execute s))"
  by (simp add: delete_document_def execute_document_query_out_of_range [OF assms])

text \<open>
  C3, as stated, fails for an id outside the range of the id column: the query raises, the
  handler's \<^verbatim>\<open>except Exception\<close> rolls back and answers 500. Alice owns documents 1 and 3
  and asks to delete document 2147483648.
\<close>

theorem delete_document_out_of_range_is_500:
  "map Document_id (owned_documents example_session alice) = [1, 3]
   \<and> fst (delete_document 2147483648 example_session alice) =
       Inl (HTTPException 500 ''Failed to delete document: value out of int32 range'')
   \<and> calls (snd (delete_document 2147483648 example_session alice)) = [Execute, Rollback]"
proof -
  have "\<not> int32_range 2147483648"
    by (simp add: int32_range_def)
  from delete_document_out_of_range [OF this, of example_session alice]
  have "fst (delete_document 2147483648 example_session alice) =
       Inl (HTTPException 500 ''Failed to delete document: value out of int32 range'')"
    and "calls (snd (delete_document 2147483648 example_session alice)) = [Execute, Rollback]"
    by (simp_all add: rollback_def called_def example_session_def)
  moreover have "map Document_id (owned_documents example_session alice) = [1, 3]"
    by (simp add: owned_documents_def owned_by_def scanned_documents_def example_session_def
        example_spaces_def example_document_def alice_def)
  ultimately show ?thesis
    by (intro conjI)
qed

text \<open>
  C3, amended. \<^verbatim>\<open>DELETE /documents/{id}\<close> for an id within the range of the id column and
  with no document of that id owned by the requesting user returns 404, passed on by
  \<^verbatim>\<open>except HTTPException: raise\<close>, and the session is as before but for the one query:
  both row lists are unchanged and the only session method called is \<open>Execute\<close>, so
  neither a delete nor a commit happened.
\<close>

theorem delete_document_missing_404:
  assumes "int32_range document_id"
    and "\<not> (\<exists>d \<in> set (documents s). Document_id d = document_id \<and> owned_by s user d)"
  shows "\<exists>s'. delete_document document_id s user =
           (Inl (HTTPException 404 (''Document with id '' @ str_int document_id @ '' not found'')), s')
         \<and> documents s' = documents s \<and> persisted_documents s' = persisted_documents s
         \<and> search_spaces s' = search_spaces s \<and> calls s' = calls s @ [Execute]"
proof -
  have "documents (called Execute s) = documents s"
    "persisted_documents (called Execute s) = persisted_documents s"
    "search_spaces (called Execute s) = search_spaces s"
    "calls (called Execute s) = calls s @ [Execute]"
    by (simp_all add: called_def)
  with delete_document_missing [OF assms] show ?thesis
    by blast
qed

lemma example_session_2_not_alice:
  "\<not> (\<exists>d \<in> set (documents example_session). Document_id d = 2 \<and> owned_by example_session alice d)"
  by (simp add: example_session_def example_spaces_def example_document_def owned_by_def alice_def)

text \<open>Alice asks to delete document 2, which is in bob's search space.\<close>

theorem delete_document_missing_404_witness:
  "int32_range 2
   \<and> \<not> (\<exists>d \<in> set (documents example_session). Document_id d = 2 \<and> owned_by example_session alice d)
   \<and> (\<exists>s'. delete_document 2 example_session alice =
           (Inl (HTTPException 404 ''Document with id 2 not found''), s')
         \<and> documents s' = documents example_session
         \<and> persisted_documents s' = persisted_documents example_session
         \<and> search_spaces s' = search_spaces example_session
         \<and> calls s' = calls example_session @ [Execute])"
proof -
  have str: "str_int 2 = ''2''"
    by (simp add: str_int_def str_nat.simps digit_char_def)
  have range: "int32_range 2"
    by (simp add: int32_range_def)
  show ?thesis
    using range example_session_2_not_alice
      delete_document_missing_404 [OF range example_session_2_not_alice]
    by (simp add: str)
qed

subsection \<open>Update and delete by primary key\<close>

lemma setattr_id [simp]: "Document_id (setattr d it) = Document_id d"
  by (cases it) simp_all

lemma fold_setattr_id [simp]: "Document_id (fold (\<lambda>it d. setattr d it) items d) = Document_id d"
  by (induction items arbitrary: d) simp_all

lemma setattr_row_documents:
  "documents (setattr_row pk it s) =
     map (\<lambda>d. if Document_id d = pk then setattr d it else d) (documents s)"
  by (simp add: setattr_row_def)

lemma fold_setattr_row_documents:
  "documents (fold (setattr_row pk) items s) =
     map (\<lambda>d. if Document_id d = pk then fold (\<lambda>it d. setattr d it) items d else d) (documents s)"
proof (induction items arbitrary: s)
  case Nil
  show ?case by (simp add: map_idI)
next
  case (Cons it items)
  have "documents (fold (setattr_row pk) (it # items) s) =
        map (\<lambda>d. if Document_id d = pk then fold (\<lambda>it d. setattr d it) items d else d)
          (documents (setattr_row pk it s))"
    using Cons.IH [of "setattr_row pk it s"] by simp
  also have "\<dots> = map (\<lambda>d. if Document_id d = pk then fold (\<lambda>it d. setattr d it) (it # items) d else d)
          (documents s)"
    unfolding setattr_row_documents map_map
    by (rule map_cong) simp_all
  finally show ?case .
qed

lemma fold_setattr_row_others:
  "search_spaces (fold (setattr_row pk) items s) = search_spaces s"
  "persisted_documents (fold (setattr_row pk) items s) = persisted_documents s"
  "calls (fold (setattr_row pk) items s) = calls s"
  by (induction items arbitrary: s) (simp_all add: setattr_row_def)

lemma find_unique_key:
  assumes "distinct (map f xs)" and "x \<in> set xs" and "\<And>d. f (g d) = f d"
  shows "find (\<lambda>d. f d = f x) (map g xs) = Some (g x)"
  using assms(1,2)
proof (induction xs)
  case Nil
  then show ?case by simp
next
  case (Cons y ys)
  show ?case
  proof (cases "y = x")
    case True
    then show ?thesis by (simp add: assms(3))
  next
    case False
    with Cons.prems have x: "x \<in> set ys" and "f y \<notin> f ` set ys" and d: "distinct (map f ys)"
      by simp_all
    then have "f y \<noteq> f x" by blast
    then show ?thesis
      using Cons.IH [OF d x] by (simp add: assms(3))
  qed
qed

lemma fold_setattr_fields:
  "title (fold (\<lambda>it d. setattr d it) (model_dump_exclude_unset u) d) =
     (case update_title u of None \<Rightarrow> title d | Some v \<Rightarrow> v)"
  "document_type (fold (\<lambda>it d. setattr d it) (model_dump_exclude_unset u) d) =
     (case update_document_type u of None \<Rightarrow> document_type d | Some v \<Rightarrow> v)"
  "document_metadata (fold (\<lambda>it d. setattr d it) (model_dump_exclude_unset u) d) =
     (case update_document_metadata u of None \<Rightarrow> document_metadata d | Some v \<Rightarrow> v)"
  "content (fold (\<lambda>it d. setattr d it) (model_dump_exclude_unset u) d) =
     (case update_content u of None \<Rightarrow> content d | Some v \<Rightarrow> v)"
  "Document_search_space_id (fold (\<lambda>it d. setattr d it) (model_dump_exclude_unset u) d) =
     (case update_search_space_id u of None \<Rightarrow> Document_search_space_id d | Some v \<Rightarrow> v)"
  "created_at (fold (\<lambda>it d. setattr d it) (model_dump_exclude_unset u) d) = created_at d"
  by (simp_all add: model_dump_exclude_unset_def split: option.splits)

text \<open>The session of \<^verbatim>\<open>update_document\<close> when it reaches the commit.\<close>

lemma update_document_selected:
  assumes "distinct (map Document_id (documents s))"
    and "d0 \<in> set (documents s)" and "Document_id d0 = k" and "owned_by s user d0"
    and "int32_range k"
  shows "update_document k upd s user =
     (case commit (fold (setattr_row k) (model_dump_exclude_unset upd) (called Execute s)) of
        (Inl e, s3) \<Rightarrow> update_document_except e s3
      | (Inr u, s3) \<Rightarrow>
          (case refresh k s3 of
             (Inl e, s4) \<Rightarrow> update_document_except e s4
           | (Inr refreshed, s4) \<Rightarrow> (Inr (to_DocumentRead refreshed), s4)))"
proof -
  let ?k = "Document_id d0"
  from assms(5) have "int32_range ?k"
    by (simp add: assms(3))
  from execute_document_query_in_range [OF this] obtain rows
    where q: "execute_document_query ?k user s = (Inr rows, called Execute s)"
      and rows: "scalars rows = selected_documents ?k user s"
    by blast
  from selected_some [OF assms(1,2) refl assms(4)]
  have "update_document ?k upd s user =
     (case commit (fold (setattr_row ?k) (model_dump_exclude_unset upd) (called Execute s)) of
        (Inl e, s3) \<Rightarrow> update_document_except e s3
      | (Inr u, s3) \<Rightarrow>
          (case refresh ?k s3 of
             (Inl e, s4) \<Rightarrow> update_document_except e s4
           | (Inr refreshed, s4) \<Rightarrow> (Inr (to_DocumentRead refreshed), s4)))"
    unfolding update_document_def q
    by (simp add: rows Let_def del: fold_simps)
  then show ?thesis
    unfolding assms(3) .
qed

lemma update_document_committed:
  assumes "distinct (map Document_id (documents s))"
    and "d0 \<in> set (documents s)" and "Document_id d0 = k" and "owned_by s user d0"
    and "int32_range k"
    and "foreign_keys_hold (fold (setattr_row k) (model_dump_exclude_unset upd) (called Execute s))"
  shows "\<exists>s'. update_document k upd s user =
           (Inr (to_DocumentRead (fold (\<lambda>it d. setattr d it) (model_dump_exclude_unset upd) d0)), s')
     \<and> documents s' =
         map (\<lambda>d. if Document_id d = k
                  then fold (\<lambda>it d. setattr d it) (model_dump_exclude_unset upd) d else d)
           (documents s)
     \<and> persisted_documents s' = documents s'
     \<and> search_spaces s' = search_spaces s
     \<and> calls s' = calls s @ [Execute, Commit, Refresh k]"
proof -
  let ?items = "model_dump_exclude_unset upd"
  let ?g = "\<lambda>d. if Document_id d = k then fold (\<lambda>it d. setattr d it) ?items d else d"
  define s2 where "s2 = fold (setattr_row k) ?items (called Execute s)"
  define s3 where "s3 = called Commit (s2\<lparr>persisted_documents := documents s2\<rparr>)"
  have docs2: "documents s2 = map ?g (documents s)"
    unfolding s2_def fold_setattr_row_documents by (simp add: called_def)
  have others2: "search_spaces s2 = search_spaces s" "calls s2 = calls s @ [Execute]"
    unfolding s2_def fold_setattr_row_others by (simp_all add: called_def)
  have committed: "commit s2 = (Inr (), s3)"
    using assms(6) by (simp add: commit_def s2_def s3_def)
  have s3: "documents s3 = map ?g (documents s)" "persisted_documents s3 = map ?g (documents s)"
    "search_spaces s3 = search_spaces s" "calls s3 = calls s @ [Execute, Commit]"
    unfolding s3_def called_def by (simp_all add: docs2 others2)
  have key: "Document_id (?g d) = Document_id d" for d
    by simp
  have "find (\<lambda>d. Document_id d = Document_id d0) (map ?g (documents s)) = Some (?g d0)"
    using assms(1,2) key by (rule find_unique_key)
  then have found: "find (\<lambda>d. Document_id d = k) (documents s3) = Some (?g d0)"
    unfolding s3(1) by (simp add: assms(3))
  have refreshed: "refresh k s3 = (Inr (?g d0), called (Refresh k) s3)"
    unfolding refresh_def found by simp
  have g0: "?g d0 = fold (\<lambda>it d. setattr d it) ?items d0"
    by (simp add: assms(3))
  have "update_document k upd s user = (Inr (to_DocumentRead (?g d0)), called (Refresh k) s3)"
    unfolding update_document_selected [OF assms(1-5)] s2_def [symmetric] committed
    by (simp add: refreshed)
  moreover have "documents (called (Refresh k) s3) = map ?g (documents s)"
    "persisted_documents (called (Refresh k) s3) = documents (called (Refresh k) s3)"
    "search_spaces (called (Refresh k) s3) = search_spaces s"
    "calls (called (Refresh k) s3) = calls s @ [Execute, Commit, Refresh k]"
    by (simp_all add: called_def s3)
  ultimately show ?thesis
    unfolding g0 by blast
qed

lemma update_document_refused:
  assumes "distinct (map Document_id (documents s))"
    and "d0 \<in> set (documents s)" and "Document_id d0 = k" and "owned_by s user d0"
    and "int32_range k"
    and "\<not> foreign_keys_hold (fold (setattr_row k) (model_dump_exclude_unset upd) (called Execute s))"
  shows "\<exists>s'. update_document k upd s user =
           (Inl (HTTPException 500 ''Failed to update document: violates foreign key constraint''), s')
     \<and> documents s' = persisted_documents s
     \<and> persisted_documents s' = persisted_documents s
     \<and> search_spaces s' = search_spaces s
     \<and> calls s' = calls s @ [Execute, Commit, Rollback]"
proof -
  define s2 where "s2 = fold (setattr_row k) (model_dump_exclude_unset upd) (called Execute s)"
  have others2: "search_spaces s2 = search_spaces s" "calls s2 = calls s @ [Execute]"
    "persisted_documents s2 = persisted_documents s"
    unfolding s2_def fold_setattr_row_others by (simp_all add: called_def)
  have refused: "commit s2 =
      (Inl (Exception ''violates foreign key constraint''), called Commit s2)"
    using assms(6) by (simp add: commit_def s2_def)
  have "update_document k upd s user =
      (Inl (HTTPException 500 ''Failed to update document: violates foreign key constraint''),
       rollback (called Commit s2))"
    unfolding update_document_selected [OF assms(1-5)] s2_def [symmetric] refused
    by simp
  moreover have "documents (rollback (called Commit s2)) = persisted_documents s"
    "persisted_documents (rollback (called Commit s2)) = persisted_documents s"
    "search_spaces (rollback (called Commit s2)) = search_spaces s"
    "calls (rollback (called Commit s2)) = calls s @ [Execute, Commit, Rollback]"
    by (simp_all add: rollback_def called_def others2)
  ultimately show ?thesis
    by blast
qed

lemma update_document_missing:
  assumes "int32_range k"
    and "\<not> (\<exists>d \<in> set (documents s). Document_id d = k \<and> owned_by s user d)"
  shows "update_document k upd s user =
     (Inl (HTTPException 404 (''Document with id '' @ str_int k @ '' not found'')), called Execute s)"
proof -
  from execute_document_query_in_range [OF assms(1)] obtain rows
    where q: "execute_document_query k user s = (Inr rows, called Execute s)"
      and rows: "scalars rows = selected_documents k user s"
    by blast
  from selected_none [OF assms(2)] show ?thesis
    by (simp add: update_document_def q rows)
qed

lemma update_document_out_of_range:
  assumes "\<not> int32_range k"
  shows "update_document k upd s user =
     (Inl (HTTPException 500 ''Failed to update document: value out of int32 range''),
      rollback (called Execute s))"
  by (simp add: update_document_def execute_document_query_out_of_range [OF assms])

text \<open>What an update can leave behind: the rows as they were, or one owned row rewritten.\<close>

lemma update_document_outcome:
  assumes "distinct (map Document_id (documents s))"
    and "update_document k upd s user = (r, s')"
  shows "((documents s' = documents s \<or> documents s' = persisted_documents s)
          \<and> persisted_documents s' = persisted_documents s \<and> (\<exists>e. r = Inl e))
       \<or> (\<exists>d0 \<in> set (documents s). Document_id d0 = k \<and> owned_by s user d0
            \<and> r = Inr (to_DocumentRead
                        (fold (\<lambda>it d. setattr d it) (model_dump_exclude_unset upd) d0))
            \<and> documents s' =
                map (\<lambda>d. if Document_id d = k
                         then fold (\<lambda>it d. setattr d it) (model_dump_exclude_unset upd) d else d)
                  (documents s)
            \<and> persisted_documents s' = documents s'
            \<and> search_spaces s' = search_spaces s
            \<and> calls s' = calls s @ [Execute, Commit, Refresh k])"
proof (cases "int32_range k")
  case False
  from update_document_out_of_range [OF False, of upd s user] assms(2)
  have "r = Inl (HTTPException 500 ''Failed to update document: value out of int32 range'')"
    and "s' = rollback (called Execute s)"
    by simp_all
  then show ?thesis
    by (simp add: rollback_def called_def)
next
  case True
  show ?thesis
  proof (cases rule: owned_or_missing [of s k user])
    case missing
    from update_document_missing [OF True missing, of upd] assms(2)
    have "r = Inl (HTTPException 404 (''Document with id '' @ str_int k @ '' not found''))"
      and "s' = called Execute s"
      by simp_all
    then show ?thesis
      by (simp add: called_def)
  next
    case (owned d0)
    show ?thesis
    proof (cases "foreign_keys_hold
        (fold (setattr_row k) (model_dump_exclude_unset upd) (called Execute s))")
      case False
      from update_document_refused [OF assms(1) owned True False] assms(2)
      show ?thesis by auto
    next
      case fk: True
      from update_document_committed [OF assms(1) owned True fk] assms(2)
      have "r = Inr (to_DocumentRead
                        (fold (\<lambda>it d. setattr d it) (model_dump_exclude_unset upd) d0))
            \<and> documents s' =
                map (\<lambda>d. if Document_id d = k
                         then fold (\<lambda>it d. setattr d it) (model_dump_exclude_unset upd) d else d)
                  (documents s)
            \<and> persisted_documents s' = documents s'
            \<and> search_spaces s' = search_spaces s
            \<and> calls s' = calls s @ [Execute, Commit, Refresh k]"
        by auto
      with owned show ?thesis
        by blast
    qed
  qed
qed

lemma delete_document_selected:
  assumes "distinct (map Document_id (documents s))"
    and "d0 \<in> set (documents s)" and "Document_id d0 = k" and "owned_by s user d0"
    and "int32_range k"
  shows "delete_document k s user =
     (case commit (delete d0 (called Execute s)) of
        (Inl e, s2) \<Rightarrow> delete_document_except e s2
      | (Inr u, s2) \<Rightarrow> (Inr [(''message'', ''Document deleted successfully'')], s2))"
proof -
  from execute_document_query_in_range [OF assms(5)] obtain rows
    where q: "execute_document_query k user s = (Inr rows, called Execute s)"
      and rows: "scalars rows = selected_documents k user s"
    by blast
  from selected_some [OF assms(1-4)] show ?thesis
    unfolding delete_document_def q
    by (simp add: rows)
qed

text \<open>What a delete can leave behind: the rows as they were, or the rows without an owned one.\<close>

lemma delete_document_outcome:
  assumes "distinct (map Document_id (documents s))"
    and "delete_document k s user = (r, s')"
  shows "((documents s' = documents s \<or> documents s' = persisted_documents s)
          \<and> persisted_documents s' = persisted_documents s)
       \<or> ((\<exists>d0 \<in> set (documents s). Document_id d0 = k \<and> owned_by s user d0)
            \<and> documents s' = filter (\<lambda>d. Document_id d \<noteq> k) (documents s)
            \<and> persisted_documents s' = documents s')"
proof (cases "int32_range k")
  case False
  from delete_document_out_of_range [OF False, of s user] assms(2)
  have "s' = rollback (called Execute s)"
    by simp
  then show ?thesis
    by (simp add: rollback_def called_def)
next
  case True
  show ?thesis
  proof (cases rule: owned_or_missing [of s k user])
    case missing
    from delete_document_missing [OF True missing] assms(2)
    have "s' = called Execute s"
      by simp
    then show ?thesis
      by (simp add: called_def)
  next
    case (owned d0)
    define s2 where "s2 = delete d0 (called Execute s)"
    have s2: "documents s2 = filter (\<lambda>d. Document_id d \<noteq> k) (documents s)"
      "persisted_documents s2 = persisted_documents s"
      by (simp_all add: s2_def delete_def called_def owned(2))
    note run = assms(2) [unfolded delete_document_selected [OF assms(1) owned True],
        folded s2_def]
    show ?thesis
    proof (cases "foreign_keys_hold s2")
      case False
      then have "commit s2 =
          (Inl (Exception ''violates foreign key constraint''), called Commit s2)"
        by (simp add: commit_def)
      with run have s': "s' = rollback (called Commit s2)"
        by simp
      have "documents s' = persisted_documents s"
        "persisted_documents s' = persisted_documents s"
        unfolding s' by (simp_all add: rollback_def called_def s2)
      then show ?thesis
        by simp
    next
      case fk: True
      then have "commit s2 =
          (Inr (), called Commit (s2\<lparr>persisted_documents := documents s2\<rparr>))"
        by (simp add: commit_def)
      with run have s': "s' = called Commit (s2\<lparr>persisted_documents := documents s2\<rparr>)"
        by simp
      have "documents s' = filter (\<lambda>d. Document_id d \<noteq> k) (documents s)"
        "persisted_documents s' = documents s'"
        unfolding s' by (simp_all add: called_def s2)
      with owned show ?thesis
        by blast
    qed
  qed
qed

text \<open>
  C6. A successful \<^verbatim>\<open>PUT /documents/{id}\<close> replaces the selected row \<open>old\<close> by a row
  \<open>new\<close> in which every field set in the payload has the payload's value and every field
  the payload omits has the value it had in \<open>old\<close>; the response is built from \<open>new\<close>,
  and the other rows are as before. Primary keys are unique.
\<close>

theorem update_document_partial:
  assumes "distinct (map Document_id (documents s))"
    and "update_document document_id document_update s user = (Inr response, s')"
  shows "\<exists>old \<in> set (documents s). \<exists>new \<in> set (documents s').
      Document_id old = document_id \<and> owned_by s user old
    \<and> Document_id new = document_id \<and> response = to_DocumentRead new
    \<and> title new = (case update_title document_update of None \<Rightarrow> title old | Some v \<Rightarrow> v)
    \<and> document_type new =
        (case update_document_type document_update of None \<Rightarrow> document_type old | Some v \<Rightarrow> v)
    \<and> document_metadata new =
        (case update_document_metadata document_update of
           None \<Rightarrow> document_metadata old | Some v \<Rightarrow> v)
    \<and> content new = (case update_content document_update of None \<Rightarrow> content old | Some v \<Rightarrow> v)
    \<and> Document_search_space_id new =
        (case update_search_space_id document_update of
           None \<Rightarrow> Document_search_space_id old | Some v \<Rightarrow> v)
    \<and> created_at new = created_at old
    \<and> documents s' = map (\<lambda>d. if Document_id d = document_id then new else d) (documents s)
    \<and> persisted_documents s' = documents s'"
proof -
  let ?F = "fold (\<lambda>it d. setattr d it) (model_dump_exclude_unset document_update)"
  from update_document_outcome [OF assms]
  obtain d0 where owned: "d0 \<in> set (documents s)" "Document_id d0 = document_id"
      "owned_by s user d0"
    and resp: "response = to_DocumentRead (?F d0)"
    and docs: "documents s' = map (\<lambda>d. if Document_id d = document_id then ?F d else d) (documents s)"
    and pers: "persisted_documents s' = documents s'"
    by auto
  have same: "(if Document_id d = document_id then ?F d else d) =
              (if Document_id d = document_id then ?F d0 else d)" if "d \<in> set (documents s)" for d
  proof (cases "Document_id d = document_id")
    case True
    then have "Document_id d = Document_id d0" using owned(2) by simp
    with assms(1) that owned(1) have "d = d0" by (rule unique_key_eq)
    then show ?thesis by simp
  next
    case False
    then show ?thesis by simp
  qed
  have docs': "documents s' = map (\<lambda>d. if Document_id d = document_id then ?F d0 else d) (documents s)"
    unfolding docs by (rule map_cong) (simp_all add: same)
  have new_in: "?F d0 \<in> set (documents s')"
    unfolding docs' using owned(1,2) by (auto simp: image_iff)
  have id_new: "Document_id (?F d0) = document_id"
    using owned(2) by simp
  show ?thesis
    apply (rule bexI [OF _ owned(1)])
    apply (rule bexI [OF _ new_in])
    using owned(2,3) id_new resp docs' pers
    by (simp add: fold_setattr_fields)
qed

lemma example_session_distinct: "distinct (map Document_id (documents example_session))"
  by (simp add: example_session_def example_document_def)

lemma update_title_only_example:
  "fst (update_document 1 title_only example_session alice) =
     Inr (to_DocumentRead ((example_document 1 1)\<lparr>title := ''renamed''\<rparr>))"
  by (simp add: update_document_def execute_document_query_def int32_range_def
      select_Document_join_SearchSpace_def scanned_documents_def
      example_session_def example_spaces_def alice_def example_document_def first_def scalars_def
      title_only_def model_dump_exclude_unset_def setattr_row_def commit_def called_def
      foreign_keys_hold_def refresh_def to_DocumentRead_def)

text \<open>Alice renames her document 1 and sends nothing else: the content stays.\<close>

theorem update_document_partial_witness:
  "distinct (map Document_id (documents example_session))
   \<and> (\<exists>response s'. update_document 1 title_only example_session alice = (Inr response, s')
        \<and> title_read response = ''renamed''
        \<and> content_read response = content (example_document 1 1)
        \<and> (\<exists>new \<in> set (documents s'). Document_id new = 1 \<and> title new = ''renamed''
               \<and> content new = content (example_document 1 1)))"
proof -
  let ?s' = "snd (update_document 1 title_only example_session alice)"
  let ?r = "to_DocumentRead ((example_document 1 1)\<lparr>title := ''renamed''\<rparr>)"
  have run: "update_document 1 title_only example_session alice = (Inr ?r, ?s')"
    using update_title_only_example by (simp add: prod_eq_iff)
  from update_document_partial [OF example_session_distinct run]
  obtain old new where old: "old \<in> set (documents example_session)" "Document_id old = 1"
    and new: "new \<in> set (documents ?s')" "Document_id new = 1" "?r = to_DocumentRead new"
      "title new = (case update_title title_only of None \<Rightarrow> title old | Some v \<Rightarrow> v)"
      "content new = (case update_content title_only of None \<Rightarrow> content old | Some v \<Rightarrow> v)"
    by blast
  from old have "old = example_document 1 1"
    by (auto simp: example_session_def example_document_def)
  with new have tn: "title new = ''renamed''" "content new = content (example_document 1 1)"
    by (simp_all add: title_only_def)
  have r: "title_read ?r = ''renamed''" "content_read ?r = content (example_document 1 1)"
    by (simp_all add: to_DocumentRead_def)
  have stored: "\<exists>new \<in> set (documents ?s'). Document_id new = 1 \<and> title new = ''renamed''
               \<and> content new = content (example_document 1 1)"
    using new(1,2) tn by blast
  have "\<exists>response s'. update_document 1 title_only example_session alice = (Inr response, s')
        \<and> title_read response = ''renamed''
        \<and> content_read response = content (example_document 1 1)
        \<and> (\<exists>new \<in> set (documents s'). Document_id new = 1 \<and> title new = ''renamed''
               \<and> content new = content (example_document 1 1))"
    by (rule exI [of _ ?r], rule exI [of _ ?s']) (intro conjI run r stored)
  with example_session_distinct show ?thesis
    by (intro conjI)
qed

lemma update_keeps_foreign_keys:
  assumes "persisted_documents s = documents s"
    and "update_search_space_id upd = Some destination"
    and "destination \<in> set (map SearchSpace_id (search_spaces s))"
  shows "foreign_keys_hold (fold (setattr_row k) (model_dump_exclude_unset upd) (called Execute s))"
proof -
  let ?F = "fold (\<lambda>it d. setattr d it) (model_dump_exclude_unset upd)"
  let ?s2 = "fold (setattr_row k) (model_dump_exclude_unset upd) (called Execute s)"
  have docs: "documents ?s2 = map (\<lambda>d. if Document_id d = k then ?F d else d) (documents s)"
    unfolding fold_setattr_row_documents by (simp add: called_def)
  have pers: "persisted_documents ?s2 = documents s"
    unfolding fold_setattr_row_others by (simp add: called_def assms(1))
  have spaces: "search_spaces ?s2 = search_spaces s"
    unfolding fold_setattr_row_others by (simp add: called_def)
  have moved: "Document_search_space_id (?F d) = destination" for d
    by (simp add: fold_setattr_fields assms(2))
  show ?thesis
    unfolding foreign_keys_hold_def list_all_iff docs pers spaces
    using assms(3) by (auto simp: moved)
qed

text \<open>
  C9, as stated, fails for a value that is no search space's id: the flush of the commit
  violates the foreign key, the handler rolls back and answers 500, and the document stays
  where it was. Alice sets the search space of her document 1 to 99; the search spaces are
  1 and 2.
\<close>

theorem update_document_unknown_destination:
  "map Document_id (owned_documents example_session alice) = [1, 3]
   \<and> update_search_space_id (move_to_space 99) = Some 99
   \<and> map SearchSpace_id (search_spaces example_session) = [1, 2]
   \<and> fst (update_document 1 (move_to_space 99) example_session alice) =
       Inl (HTTPException 500 ''Failed to update document: violates foreign key constraint'')
   \<and> documents (snd (update_document 1 (move_to_space 99) example_session alice)) =
       documents example_session"
proof -
  have "map Document_id (owned_documents example_session alice) = [1, 3]"
    by (simp add: owned_documents_def owned_by_def scanned_documents_def example_session_def
        example_spaces_def example_document_def alice_def)
  moreover have "update_search_space_id (move_to_space 99) = Some 99"
    by (simp add: move_to_space_def)
  moreover have "map SearchSpace_id (search_spaces example_session) = [1, 2]"
    by (simp add: example_session_def example_spaces_def)
  moreover have "update_document 1 (move_to_space 99) example_session alice =
      (Inl (HTTPException 500 ''Failed to update document: violates foreign key constraint''),
       rollback (called Commit
         (fold (setattr_row 1) (model_dump_exclude_unset (move_to_space 99))
            (called Execute example_session))))"
    by (simp add: update_document_def execute_document_query_def int32_range_def
        select_Document_join_SearchSpace_def scanned_documents_def
        example_session_def example_spaces_def alice_def example_document_def first_def
        scalars_def move_to_space_def model_dump_exclude_unset_def setattr_row_def commit_def
        called_def foreign_keys_hold_def)
  then have "fst (update_document 1 (move_to_space 99) example_session alice) =
       Inl (HTTPException 500 ''Failed to update document: violates foreign key constraint'')"
    and "documents (snd (update_document 1 (move_to_space 99) example_session alice)) =
       documents example_session"
    by (simp_all add: rollback_def called_def fold_setattr_row_others example_session_def)
  ultimately show ?thesis
    by (intro conjI)
qed

text \<open>
  C9, amended. When the payload sets \<^verbatim>\<open>search_space_id\<close> to the id of an existing search
  space, whoever owns it, the update of a document the user owns succeeds, the committed row
  carries the destination, and the session methods called are the one select of the
  document, the commit and the refresh: nothing looks up who owns the destination. Primary
  keys are unique and the request's session starts without pending changes.
\<close>

theorem update_document_moves_unchecked:
  assumes "distinct (map Document_id (documents s))"
    and "persisted_documents s = documents s"
    and "d0 \<in> set (documents s)" and "Document_id d0 = document_id" and "owned_by s user d0"
    and "int32_range document_id"
    and "update_search_space_id document_update = Some destination"
    and "destination \<in> set (map SearchSpace_id (search_spaces s))"
  shows "\<exists>response s'. update_document document_id document_update s user = (Inr response, s')
      \<and> search_space_id_read response = destination
      \<and> (\<exists>new \<in> set (persisted_documents s').
             Document_id new = document_id \<and> Document_search_space_id new = destination)
      \<and> calls s' = calls s @ [Execute, Commit, Refresh document_id]"
proof -
  let ?F = "fold (\<lambda>it d. setattr d it) (model_dump_exclude_unset document_update)"
  note fk = update_keeps_foreign_keys [OF assms(2,7,8), of document_id]
  from update_document_committed [OF assms(1,3,4,5,6) fk]
  obtain s' where run: "update_document document_id document_update s user =
        (Inr (to_DocumentRead (?F d0)), s')"
    and docs: "documents s' = map (\<lambda>d. if Document_id d = document_id then ?F d else d) (documents s)"
    and pers: "persisted_documents s' = documents s'"
    and calls: "calls s' = calls s @ [Execute, Commit, Refresh document_id]"
    by blast
  have dest: "Document_search_space_id (?F d0) = destination"
    by (simp add: fold_setattr_fields assms(7))
  then have resp: "search_space_id_read (to_DocumentRead (?F d0)) = destination"
    by (simp add: to_DocumentRead_def)
  have "?F d0 \<in> set (persisted_documents s')"
    unfolding pers docs using assms(3,4) by (auto simp: image_iff)
  moreover have "Document_id (?F d0) = document_id"
    using assms(4) by simp
  ultimately have stored: "\<exists>new \<in> set (persisted_documents s').
             Document_id new = document_id \<and> Document_search_space_id new = destination"
    using dest by blast
  show ?thesis
    by (rule exI [of _ "to_DocumentRead (?F d0)"], rule exI [of _ s'])
      (intro conjI run resp stored calls)
qed

lemma example_session_clean: "persisted_documents example_session = documents example_session"
  by (simp add: example_session_def)

lemma example_document_1_alice:
  "example_document 1 1 \<in> set (documents example_session)"
  "Document_id (example_document 1 1) = 1"
  "owned_by example_session alice (example_document 1 1)"
  by (simp_all add: example_session_def example_spaces_def example_document_def owned_by_def
      alice_def)

text \<open>Alice moves her document 1 into search space 2, which is bob's.\<close>

theorem update_document_moves_unchecked_witness:
  "distinct (map Document_id (documents example_session))
   \<and> persisted_documents example_session = documents example_session
   \<and> example_document 1 1 \<in> set (documents example_session)
   \<and> owned_by example_session alice (example_document 1 1)
   \<and> int32_range 1
   \<and> update_search_space_id (move_to_space 2) = Some 2
   \<and> 2 \<in> set (map SearchSpace_id (search_spaces example_session))
   \<and> \<not> (\<exists>sp \<in> set (search_spaces example_session).
           SearchSpace_id sp = 2 \<and> SearchSpace_user_id sp = User_id alice)
   \<and> (\<exists>response s'. update_document 1 (move_to_space 2) example_session alice = (Inr response, s')
      \<and> search_space_id_read response = 2
      \<and> (\<exists>new \<in> set (persisted_documents s').
             Document_id new = 1 \<and> Document_search_space_id new = 2)
      \<and> calls s' = calls example_session @ [Execute, Commit, Refresh 1])"
proof -
  have mv: "update_search_space_id (move_to_space 2) = Some 2"
    by (simp add: move_to_space_def)
  have range: "int32_range 1"
    by (simp add: int32_range_def)
  have there: "2 \<in> set (map SearchSpace_id (search_spaces example_session))"
    by (simp add: example_session_def example_spaces_def)
  have foreign: "\<not> (\<exists>sp \<in> set (search_spaces example_session).
           SearchSpace_id sp = 2 \<and> SearchSpace_user_id sp = User_id alice)"
    by (simp add: example_session_def example_spaces_def alice_def)
  note run = update_document_moves_unchecked
    [OF example_session_distinct example_session_clean example_document_1_alice range mv there]
  show ?thesis
    by (intro conjI example_session_distinct example_session_clean
        example_document_1_alice(1,3) range mv there foreign run)
qed

text \<open>
  C1. All four handlers select through the join with the filter on the search space's
  owner. So, with ownership read in the state the request finds: every listed summary and
  every document read back is a document of the user's; an update leaves every row that is
  not the user's where and as it was, and when it answers with a document, that document
  was the user's; a delete removes no row that is not the user's. Primary keys are unique
  and the request's session starts without pending changes.
\<close>

theorem tenant_isolation:
  assumes "distinct (map Document_id (documents s))"
    and "persisted_documents s = documents s"
  shows "(\<forall>docs s'. read_documents skip limit s user = (Inr docs, s') \<longrightarrow>
            (\<forall>r \<in> set docs. \<exists>d \<in> set (documents s). owned_by s user d \<and> r = to_DocumentRead d))
       \<and> (\<forall>r s'. read_document document_id s user = (Inr r, s') \<longrightarrow>
            (\<exists>d \<in> set (documents s). owned_by s user d \<and> r = to_DocumentRead d))
       \<and> (\<forall>r s'. update_document document_id document_update s user = (r, s') \<longrightarrow>
            length (documents s') = length (documents s)
          \<and> (\<forall>i < length (documents s).
                \<not> owned_by s user (documents s ! i) \<longrightarrow> documents s' ! i = documents s ! i)
          \<and> persisted_documents s' = documents s'
          \<and> (\<forall>response. r = Inr response \<longrightarrow>
                (\<exists>d \<in> set (documents s). owned_by s user d \<and> id_read response = Document_id d)))
       \<and> (\<forall>r s'. delete_document document_id s user = (r, s') \<longrightarrow>
            filter (\<lambda>d. \<not> owned_by s user d) (documents s') =
            filter (\<lambda>d. \<not> owned_by s user d) (documents s)
          \<and> persisted_documents s' = documents s')"
proof -
  have listed: "\<forall>docs s'. read_documents skip limit s user = (Inr docs, s') \<longrightarrow>
            (\<forall>r \<in> set docs. \<exists>d \<in> set (documents s). owned_by s user d \<and> r = to_DocumentRead d)"
  proof (intro allI impI ballI)
    fix docs s' r
    assume run: "read_documents skip limit s user = (Inr docs, s')" and r: "r \<in> set docs"
    let ?skip = "case skip of None \<Rightarrow> 0 | Some v \<Rightarrow> v"
    let ?limit = "case limit of None \<Rightarrow> 300 | Some v \<Rightarrow> v"
    obtain res s1 where q: "execute_list_query user ?skip ?limit s = (res, s1)"
      by (cases "execute_list_query user ?skip ?limit s")
    from run q obtain rows where rows: "res = Inr rows" "docs = map to_DocumentRead (scalars rows)"
      by (cases res) (auto simp: read_documents_def read_documents_except_def Let_def)
    from r rows(2) obtain d where d: "d \<in> set (scalars rows)" "r = to_DocumentRead d"
      by auto
    from list_query_owned [OF q [unfolded rows(1)] d(1)] d(2)
    show "\<exists>d \<in> set (documents s). owned_by s user d \<and> r = to_DocumentRead d"
      by blast
  qed
  have single: "\<forall>r s'. read_document document_id s user = (Inr r, s') \<longrightarrow>
            (\<exists>d \<in> set (documents s). owned_by s user d \<and> r = to_DocumentRead d)"
  proof (intro allI impI)
    fix r s'
    assume run: "read_document document_id s user = (Inr r, s')"
    have range: "int32_range document_id"
    proof (rule ccontr)
      assume "\<not> int32_range document_id"
      from execute_document_query_out_of_range [OF this, of user s] run show False
        by (simp add: read_document_def read_document_except_def)
    qed
    from execute_document_query_in_range [OF range] obtain rows
      where q: "execute_document_query document_id user s = (Inr rows, called Execute s)"
        and rows: "scalars rows = selected_documents document_id user s"
      by blast
    from run obtain d where d: "first (selected_documents document_id user s) = Some d"
        "r = to_DocumentRead d"
      by (cases "first (selected_documents document_id user s)")
        (auto simp: read_document_def q rows read_document_except_def)
    from first_SomeD [OF d(1)] have "d \<in> set (documents s)" "owned_by s user d"
      unfolding selected_iff by blast+
    with d(2) show "\<exists>d \<in> set (documents s). owned_by s user d \<and> r = to_DocumentRead d"
      by blast
  qed
  have updated: "\<forall>r s'. update_document document_id document_update s user = (r, s') \<longrightarrow>
            length (documents s') = length (documents s)
          \<and> (\<forall>i < length (documents s).
                \<not> owned_by s user (documents s ! i) \<longrightarrow> documents s' ! i = documents s ! i)
          \<and> persisted_documents s' = documents s'
          \<and> (\<forall>response. r = Inr response \<longrightarrow>
                (\<exists>d \<in> set (documents s). owned_by s user d \<and> id_read response = Document_id d))"
  proof (intro allI impI)
    fix r s'
    assume run: "update_document document_id document_update s user = (r, s')"
    let ?F = "fold (\<lambda>it d. setattr d it) (model_dump_exclude_unset document_update)"
    let ?g = "\<lambda>d. if Document_id d = document_id then ?F d else d"
    from update_document_outcome [OF assms(1) run]
    consider (same) "documents s' = documents s" "persisted_documents s' = documents s"
        "\<exists>e. r = Inl e"
      | (rewritten) d0 where "d0 \<in> set (documents s)" "Document_id d0 = document_id"
        "owned_by s user d0" "r = Inr (to_DocumentRead (?F d0))"
        "documents s' = map ?g (documents s)" "persisted_documents s' = documents s'"
      unfolding assms(2) by blast
    then show "length (documents s') = length (documents s)
        \<and> (\<forall>i < length (documents s).
              \<not> owned_by s user (documents s ! i) \<longrightarrow> documents s' ! i = documents s ! i)
        \<and> persisted_documents s' = documents s'
        \<and> (\<forall>response. r = Inr response \<longrightarrow>
              (\<exists>d \<in> set (documents s). owned_by s user d \<and> id_read response = Document_id d))"
    proof cases
      case same
      then show ?thesis
        by auto
    next
      case (rewritten d0)
      note docs = rewritten(5)
      have frame: "documents s' ! i = documents s ! i"
        if "i < length (documents s)" "\<not> owned_by s user (documents s ! i)" for i
      proof -
        have "Document_id (documents s ! i) \<noteq> document_id"
        proof
          assume "Document_id (documents s ! i) = document_id"
          then have "Document_id (documents s ! i) = Document_id d0"
            using rewritten(2) by simp
          with assms(1) nth_mem [OF that(1)] rewritten(1) have "documents s ! i = d0"
            by (rule unique_key_eq)
          with that(2) rewritten(3) show False by simp
        qed
        then show ?thesis
          unfolding docs using that(1) by simp
      qed
      have "id_read (to_DocumentRead (?F d0)) = Document_id d0"
        by (simp add: to_DocumentRead_def)
      with rewritten(1,3,4) have "\<forall>response. r = Inr response \<longrightarrow>
              (\<exists>d \<in> set (documents s). owned_by s user d \<and> id_read response = Document_id d)"
        by blast
      moreover have "length (documents s') = length (documents s)"
        unfolding docs by simp
      ultimately show ?thesis
        using frame rewritten(6) by blast
    qed
  qed
  have deleted: "\<forall>r s'. delete_document document_id s user = (r, s') \<longrightarrow>
            filter (\<lambda>d. \<not> owned_by s user d) (documents s') =
            filter (\<lambda>d. \<not> owned_by s user d) (documents s)
          \<and> persisted_documents s' = documents s'"
  proof (intro allI impI)
    fix r s'
    assume run: "delete_document document_id s user = (r, s')"
    from delete_document_outcome [OF assms(1) run]
    consider (same) "documents s' = documents s" "persisted_documents s' = documents s"
      | (removed) d0 where "d0 \<in> set (documents s)" "Document_id d0 = document_id"
        "owned_by s user d0"
        "documents s' = filter (\<lambda>d. Document_id d \<noteq> document_id) (documents s)"
        "persisted_documents s' = documents s'"
      unfolding assms(2) by blast
    then show "filter (\<lambda>d. \<not> owned_by s user d) (documents s') =
              filter (\<lambda>d. \<not> owned_by s user d) (documents s)
            \<and> persisted_documents s' = documents s'"
    proof cases
      case same
      then show ?thesis
        by simp
    next
      case (removed d0)
      note docs = removed(4)
      have keep: "(\<not> owned_by s user d \<and> Document_id d \<noteq> document_id) = (\<not> owned_by s user d)"
        if "d \<in> set (documents s)" for d
      proof (cases "Document_id d = document_id")
        case True
        then have "Document_id d = Document_id d0" using removed(2) by simp
        with assms(1) that removed(1) have "d = d0" by (rule unique_key_eq)
        with removed(3) show ?thesis by simp
      next
        case False
        then show ?thesis by simp
      qed
      have "filter (\<lambda>d. \<not> owned_by s user d \<and> Document_id d \<noteq> document_id) (documents s) =
                 filter (\<lambda>d. \<not> owned_by s user d) (documents s)"
        by (rule filter_cong [OF refl]) (rule keep)
      then have "filter (\<lambda>d. \<not> owned_by s user d) (documents s') =
                 filter (\<lambda>d. \<not> owned_by s user d) (documents s)"
        by (simp add: docs conj_commute)
      with removed(5) show ?thesis
        by (intro conjI)
    qed
  qed
  from listed single updated deleted show ?thesis
    by (intro conjI)
qed

lemma read_documents_example:
  "fst (read_documents None None example_session alice) =
     Inr [to_DocumentRead (example_document 1 1), to_DocumentRead (example_document 3 1)]"
  by (simp add: read_documents_def execute_list_query_def int64_range_def
      select_Document_join_SearchSpace_def scanned_documents_def
      example_session_def example_spaces_def alice_def example_document_def scalars_def)

lemma read_document_example:
  "fst (read_document 1 example_session alice) = Inr (to_DocumentRead (example_document 1 1))"
  by (simp add: read_document_def execute_document_query_def int32_range_def
      select_Document_join_SearchSpace_def scanned_documents_def
      example_session_def example_spaces_def alice_def example_document_def scalars_def first_def)

lemma example_session_bob_row:
  "1 < length (documents example_session)"
  "\<not> owned_by example_session alice (documents example_session ! 1)"
  by (simp_all add: example_session_def example_spaces_def example_document_def owned_by_def
      alice_def)

text \<open>Alice's requests on the example data; row 1 of the table is bob's document.\<close>

theorem tenant_isolation_witness:
  "distinct (map Document_id (documents example_session))
   \<and> persisted_documents example_session = documents example_session
   \<and> (\<exists>docs. fst (read_documents None None example_session alice) = Inr docs \<and> docs \<noteq> []
        \<and> (\<forall>r \<in> set docs. \<exists>d \<in> set (documents example_session).
              owned_by example_session alice d \<and> r = to_DocumentRead d))
   \<and> (\<exists>r. fst (read_document 1 example_session alice) = Inr r
        \<and> (\<exists>d \<in> set (documents example_session).
              owned_by example_session alice d \<and> r = to_DocumentRead d))
   \<and> \<not> owned_by example_session alice (documents example_session ! 1)
   \<and> documents (snd (update_document 1 title_only example_session alice)) ! 1 =
       documents example_session ! 1
   \<and> filter (\<lambda>d. \<not> owned_by example_session alice d)
        (documents (snd (delete_document 1 example_session alice))) =
     filter (\<lambda>d. \<not> owned_by example_session alice d) (documents example_session)"
proof -
  note t = tenant_isolation [OF example_session_distinct example_session_clean,
      where skip = None and limit = None and user = alice and document_id = 1
        and document_update = title_only]
  let ?docs = "[to_DocumentRead (example_document 1 1), to_DocumentRead (example_document 3 1)]"
  have "read_documents None None example_session alice =
          (Inr ?docs, snd (read_documents None None example_session alice))"
    using read_documents_example by (simp add: prod_eq_iff)
  from t [THEN conjunct1, rule_format, OF this]
  have listed: "\<forall>r \<in> set ?docs. \<exists>d \<in> set (documents example_session).
              owned_by example_session alice d \<and> r = to_DocumentRead d"
    by (rule ballI)
  have "read_document 1 example_session alice =
          (Inr (to_DocumentRead (example_document 1 1)), snd (read_document 1 example_session alice))"
    using read_document_example by (simp add: prod_eq_iff)
  from t [THEN conjunct2, THEN conjunct1, rule_format, OF this]
  have single: "\<exists>d \<in> set (documents example_session).
              owned_by example_session alice d \<and> to_DocumentRead (example_document 1 1) = to_DocumentRead d" .
  have "update_document 1 title_only example_session alice =
          (fst (update_document 1 title_only example_session alice),
           snd (update_document 1 title_only example_session alice))"
    by simp
  from t [THEN conjunct2, THEN conjunct2, THEN conjunct1, rule_format, OF this,
      THEN conjunct2, THEN conjunct1, rule_format, OF example_session_bob_row]
  have updated: "documents (snd (update_document 1 title_only example_session alice)) ! 1 =
       documents example_session ! 1" .
  have "delete_document 1 example_session alice =
          (fst (delete_document 1 example_session alice),
           snd (delete_document 1 example_session alice))"
    by simp
  from t [THEN conjunct2, THEN conjunct2, THEN conjunct2, rule_format, OF this, THEN conjunct1]
  have deleted: "filter (\<lambda>d. \<not> owned_by example_session alice d)
        (documents (snd (delete_document 1 example_session alice))) =
     filter (\<lambda>d. \<not> owned_by example_session alice d) (documents example_session)" .
  have l: "\<exists>docs. fst (read_documents None None example_session alice) = Inr docs \<and> docs \<noteq> []
        \<and> (\<forall>r \<in> set docs. \<exists>d \<in> set (documents example_session).
              owned_by example_session alice d \<and> r = to_DocumentRead d)"
    by (rule exI [of _ ?docs]) (intro conjI read_documents_example listed, simp)
  have s: "\<exists>r. fst (read_document 1 example_session alice) = Inr r
        \<and> (\<exists>d \<in> set (documents example_session).
              owned_by example_session alice d \<and> r = to_DocumentRead d)"
    by (rule exI [of _ "to_DocumentRead (example_document 1 1)"])
      (intro conjI read_document_example single)
  show ?thesis
    by (intro conjI example_session_distinct example_session_clean l s
        example_session_bob_row(2) updated deleted)
qed

subsection \<open>Submitting an unsupported document type\<close>

lemma foldl_add_task:
  "foldl (\<lambda>tasks x. add_task tasks (f x)) tasks xs = tasks @ map f xs"
  by (induction xs arbitrary: tasks) (simp_all add: add_task_def)

lemma check_ownership_owner:
  assumes "\<exists>sp \<in> set (search_spaces s). SearchSpace_id sp = item_id \<and> SearchSpace_user_id sp = User_id user"
  shows "\<exists>sp. check_ownership s item_id user = (Inr sp, called Execute s)"
proof -
  let ?owned = "filter (\<lambda>sp. SearchSpace_id sp = item_id \<and> SearchSpace_user_id sp = User_id user)
                  (search_spaces s)"
  from assms have "?owned \<noteq> []"
    by (simp add: filter_empty_conv)
  then obtain sp rest where "?owned = sp # rest"
    by (cases ?owned) simp_all
  then have "check_ownership s item_id user = (Inr sp, called Execute s)"
    by (simp add: check_ownership_def)
  then show ?thesis ..
qed

lemma check_ownership_stranger:
  assumes "\<not> (\<exists>sp \<in> set (search_spaces s). SearchSpace_id sp = item_id \<and> SearchSpace_user_id sp = User_id user)"
  shows "check_ownership s item_id user =
     (Inl (HTTPException 403 ''Not authorized to access this search space''), called Execute s)"
proof -
  from assms have "filter (\<lambda>sp. SearchSpace_id sp = item_id \<and> SearchSpace_user_id sp = User_id user)
                  (search_spaces s) = []"
    by (simp add: filter_empty_conv)
  then show ?thesis
    by (simp add: check_ownership_def)
qed

text \<open>
  C4, as stated, fails where the ownership check fails: the check runs before the branch on
  the document type, and its error leaves through \<^verbatim>\<open>except HTTPException: raise\<close> with its
  own status. Alice submits a FILE request for search space 2, which is bob's.
\<close>

theorem create_documents_unsupported_stranger:
  "request_document_type (file_request 2) \<notin> {EXTENSION, CRAWLED_URL, YOUTUBE_VIDEO}
   \<and> fst (create_documents (file_request 2) example_session alice []) =
       Inl (HTTPException 403 ''Not authorized to access this search space'')"
  by (simp add: create_documents_def check_ownership_def file_request_def example_session_def
      example_spaces_def alice_def)

text \<open>
  C4, amended. For a request whose document type is none of EXTENSION, CRAWLED_URL and
  YOUTUBE_VIDEO: when the user owns the search space the request fails with
  400 \<^verbatim>\<open>Invalid document type\<close>; and in every case, owner or not, the task list is what it
  was and the session has seen the ownership query only (no commit, no rollback).
\<close>

theorem create_documents_unsupported_type:
  assumes "request_document_type request \<notin> {EXTENSION, CRAWLED_URL, YOUTUBE_VIDEO}"
  shows "((\<exists>sp \<in> set (search_spaces s).
             SearchSpace_id sp = request_search_space_id request \<and>
             SearchSpace_user_id sp = User_id user) \<longrightarrow>
          fst (create_documents request s user fastapi_background_tasks) =
            Inl (HTTPException 400 ''Invalid document type''))
       \<and> snd (snd (create_documents request s user fastapi_background_tasks)) =
            fastapi_background_tasks
       \<and> calls (fst (snd (create_documents request s user fastapi_background_tasks))) =
            calls s @ [Execute]"
proof (cases "\<exists>sp \<in> set (search_spaces s).
             SearchSpace_id sp = request_search_space_id request \<and>
             SearchSpace_user_id sp = User_id user")
  case True
  from check_ownership_owner [OF True] obtain sp
    where "check_ownership s (request_search_space_id request) user = (Inr sp, called Execute s)" ..
  with assms have "create_documents request s user fastapi_background_tasks =
      (Inl (HTTPException 400 ''Invalid document type''), called Execute s, fastapi_background_tasks)"
    by (simp add: create_documents_def)
  then show ?thesis
    by (simp add: called_def)
next
  case False
  from check_ownership_stranger [OF False]
  have "create_documents request s user fastapi_background_tasks =
      (Inl (HTTPException 403 ''Not authorized to access this search space''),
       called Execute s, fastapi_background_tasks)"
    by (simp add: create_documents_def)
  with False show ?thesis
    by (simp add: called_def)
qed

lemma alice_owns_1:
  "\<exists>sp \<in> set (search_spaces example_session).
     SearchSpace_id sp = 1 \<and> SearchSpace_user_id sp = User_id alice"
  by (simp add: example_session_def example_spaces_def alice_def)

text \<open>Alice submits a FILE request for her own search space 1.\<close>

theorem create_documents_unsupported_type_witness:
  "request_document_type (file_request 1) \<notin> {EXTENSION, CRAWLED_URL, YOUTUBE_VIDEO}
   \<and> (\<exists>sp \<in> set (search_spaces example_session).
         SearchSpace_id sp = request_search_space_id (file_request 1) \<and>
         SearchSpace_user_id sp = User_id alice)
   \<and> fst (create_documents (file_request 1) example_session alice []) =
        Inl (HTTPException 400 ''Invalid document type'')
   \<and> snd (snd (create_documents (file_request 1) example_session alice [])) = []
   \<and> calls (fst (snd (create_documents (file_request 1) example_session alice []))) = [Execute]"
proof -
  have unsupported: "request_document_type (file_request 1) \<notin> {EXTENSION, CRAWLED_URL, YOUTUBE_VIDEO}"
    by (simp add: file_request_def)
  have owner: "\<exists>sp \<in> set (search_spaces example_session).
         SearchSpace_id sp = request_search_space_id (file_request 1) \<and>
         SearchSpace_user_id sp = User_id alice"
    using alice_owns_1 by (simp add: file_request_def)
  have calls: "calls example_session @ [Execute] = [Execute]"
    by (simp add: example_session_def)
  note t = create_documents_unsupported_type [OF unsupported, of example_session alice "[]"]
  from t [THEN conjunct1, rule_format, OF owner] t [THEN conjunct2] unsupported owner
  show ?thesis
    by (simp add: calls)
qed

subsection \<open>File upload: no files, and a file that cannot be staged\<close>




lemma stage_file_failure_tasks:
  assumes "stage_file upload search_space_id fs tasks = (Inl e, fs1, tasks1)"
  shows "tasks1 = tasks"
  using assms
  by (auto simp: stage_file_def split: sum.splits prod.splits)

lemma fileupload_loop_first_failure:
  assumes "fileupload_loop pre search_space_id fs tasks = (Inr u, fs1, tasks1)"
    and "stage_file bad search_space_id fs1 tasks1 = (Inl e, fs2, tasks2)"
  shows "fileupload_loop (pre @ bad # post) search_space_id fs tasks =
     (Inl (HTTPException 422
             (''Failed to process file '' @ str_filename (filename bad) @ '': '' @ str_exn e)),
      fs2, tasks1)"
  using assms(1)
proof (induction pre arbitrary: fs tasks)
  case Nil
  then have "fs1 = fs" "tasks1 = tasks" by simp_all
  with assms(2) stage_file_failure_tasks [OF assms(2)] show ?case
    by simp
next
  case (Cons upload pre)
  obtain res fsa tasksa where st: "stage_file upload search_space_id fs tasks = (res, fsa, tasksa)"
    by (cases "stage_file upload search_space_id fs tasks")
  show ?case
  proof (cases res)
    case (Inl err)
    with Cons.prems st show ?thesis by simp
  next
    case (Inr v)
    with Cons.prems st have "fileupload_loop pre search_space_id fsa tasksa = (Inr u, fs1, tasks1)"
      by simp
    from Cons.IH [OF this] Inr st show ?thesis by simp
  qed
qed

lemma seven_zeros: "replicate 7 (CHR ''0'') = ''0000000''"
  by (simp add: eval_nat_numeral)

lemma unique_characters_0: "unique_characters 0 = ''00000000''"
  by (simp add: unique_characters_def str_nat.simps digit_char_def seven_zeros)

lemma unique_characters_1: "unique_characters 1 = ''00000001''"
  by (simp add: unique_characters_def str_nat.simps digit_char_def seven_zeros)

lemma splitext_report: "splitext_ext (Some ''report.pdf'') = Inr ''.pdf''"
  by code_simp

lemma splitext_long_extension:
  "splitext_ext (Some (''scan'' @ long_extension)) = Inr long_extension"
  by code_simp

lemma length_long_extension: "length long_extension = 301"
  by (simp add: long_extension_def)

lemma stage_report_file:
  "stage_file report_file 1 empty_fs ([] :: string background_task list) =
     (Inr (), report_staged_fs,
      [process_file_in_background_with_new_session ''/tmp/tmp00000000.pdf'' (Some ''report.pdf'') 1])"
  by (simp add: stage_file_def report_file_def empty_fs_def report_staged_fs_def splitext_report
      NamedTemporaryFile_def write_file_def add_task_def unique_characters_0 Let_def)

lemma temporary_name_too_long:
  "NamedTemporaryFile long_extension fs =
     (Inl (Exception (''[Errno 36] File name too long: /tmp/tmp'' @
                        unique_characters (tmp_counter fs) @ long_extension)), fs)"
proof -
  have "255 < length (''tmp'' @ unique_characters (tmp_counter fs) @ long_extension)"
    by (simp add: length_long_extension)
  then show ?thesis
    unfolding NamedTemporaryFile_def Let_def by simp
qed

lemma stage_long_extension_file:
  "stage_file long_extension_file 1 fs (tasks :: string background_task list) =
     (Inl (Exception (''[Errno 36] File name too long: /tmp/tmp'' @
                        unique_characters (tmp_counter fs) @ long_extension)), fs, tasks)"
proof -
  have name: "filename long_extension_file = Some (''scan'' @ long_extension)"
    unfolding long_extension_file_def by simp
  show ?thesis
    by (simp only: stage_file_def name splitext_long_extension temporary_name_too_long
        sum.case prod.case)
qed

lemma stage_report_file_full:
  "stage_file report_file 1 full_fs ([] :: string background_task list) =
     (Inl (Exception ''[Errno 28] No space left on device''),
      full_fs\<lparr>fs_files := (fs_files full_fs)(''/tmp/tmp00000000.pdf'' \<mapsto> []), tmp_counter := 1\<rparr>,
      [])"
  by (simp add: stage_file_def report_file_def full_fs_def splitext_report
      NamedTemporaryFile_def write_file_def unique_characters_0 Let_def)

text \<open>
  C8, as stated, fails: the 422 raised for one file leaves the loop and fails the whole
  request, so the other files are affected. The file \<open>report_file\<close> stages well on its own,
  but uploaded after a file whose extension makes the temporary name too long it gets no
  temporary file and no task.
\<close>

theorem fileupload_failure_stops_other_files:
  "fst (check_ownership example_session 1 alice) =
     Inr \<lparr>SearchSpace_id = 1, SearchSpace_user_id = ''alice''\<rparr>
   \<and> stage_file report_file 1 empty_fs ([] :: string background_task list) =
     (Inr (), report_staged_fs,
      [process_file_in_background_with_new_session ''/tmp/tmp00000000.pdf'' (Some ''report.pdf'') 1])
   \<and> fileupload_endpoint [long_extension_file, report_file] 1 example_session alice empty_fs
        ([] :: string background_task list) =
     (Inl (HTTPException 422
        (''Failed to process file scan'' @ long_extension @
         '': [Errno 36] File name too long: /tmp/tmp00000000'' @ long_extension)),
      called Execute example_session, empty_fs, [])"
proof -
  have own: "check_ownership example_session 1 alice =
      (Inr \<lparr>SearchSpace_id = 1, SearchSpace_user_id = ''alice''\<rparr>, called Execute example_session)"
    by (simp add: check_ownership_def example_session_def example_spaces_def alice_def)
  have counter: "tmp_counter empty_fs = 0"
    by (simp add: empty_fs_def)
  have name: "str_filename (filename long_extension_file) = ''scan'' @ long_extension"
    by (simp add: str_filename_def long_extension_file_def)
  have run: "fileupload_endpoint [long_extension_file, report_file] 1 example_session alice empty_fs
        ([] :: string background_task list) =
     (Inl (HTTPException 422
        (''Failed to process file scan'' @ long_extension @
         '': [Errno 36] File name too long: /tmp/tmp00000000'' @ long_extension)),
      called Execute example_session, empty_fs, [])"
    by (simp add: fileupload_endpoint_def create_documents_fileupload_def own
        stage_long_extension_file counter unique_characters_0 name)
  have checked: "fst (check_ownership example_session 1 alice) =
     Inr \<lparr>SearchSpace_id = 1, SearchSpace_user_id = ''alice''\<rparr>"
    by (simp add: own)
  show ?thesis
    by (intro conjI checked stage_report_file run)
qed

text \<open>
  C8, amended. When the ownership check passes, the files before \<open>bad\<close> stage well and
  \<open>bad\<close> fails to stage (it has no name, the temporary file cannot be created, its
  content cannot be read, or the write fails), the request fails with a 422
  whose detail names \<open>bad\<close> and quotes its error; the file system is as the failed attempt
  left it, the task list holds the tasks of the files before \<open>bad\<close> and no other, nothing
  is committed, and the files after \<open>bad\<close> play no part.
\<close>

theorem fileupload_first_failure:
  assumes "\<exists>sp \<in> set (search_spaces s).
        SearchSpace_id sp = search_space_id \<and> SearchSpace_user_id sp = User_id user"
    and "fileupload_loop pre search_space_id fs fastapi_background_tasks = (Inr u, fs1, tasks1)"
    and "stage_file bad search_space_id fs1 tasks1 = (Inl e, fs2, tasks2)"
  shows "fileupload_endpoint (pre @ bad # post) search_space_id s user fs
           fastapi_background_tasks =
     (Inl (HTTPException 422
             (''Failed to process file '' @ str_filename (filename bad) @ '': '' @ str_exn e)),
      called Execute s, fs2, tasks1)"
proof -
  from check_ownership_owner [OF assms(1)] obtain sp
    where own: "check_ownership s search_space_id user = (Inr sp, called Execute s)" ..
  have ne: "pre @ bad # post \<noteq> []"
    by simp
  note loop = fileupload_loop_first_failure [OF assms(2,3), of post]
  show ?thesis
    unfolding fileupload_endpoint_def create_documents_fileupload_def own
    by (simp only: ne loop prod.case sum.case if_False fileupload_except.simps)
qed

lemma loop_report_file:
  "fileupload_loop [report_file] 1 empty_fs ([] :: string background_task list) =
     (Inr (), report_staged_fs,
      [process_file_in_background_with_new_session ''/tmp/tmp00000000.pdf'' (Some ''report.pdf'') 1])"
  by (simp add: stage_report_file)

lemma loop_nothing:
  "fileupload_loop [] 1 full_fs ([] :: string background_task list) = (Inr (), full_fs, [])"
  by simp

text \<open>
  Alice uploads a report, a file with an over-long extension and the report again; and she
  uploads the report to a file system with no space left.
\<close>

theorem fileupload_first_failure_witness:
  "(\<exists>sp \<in> set (search_spaces example_session).
        SearchSpace_id sp = 1 \<and> SearchSpace_user_id sp = User_id alice)
   \<and> fileupload_endpoint ([report_file] @ long_extension_file # [report_file]) 1 example_session
        alice empty_fs ([] :: string background_task list) =
     (Inl (HTTPException 422
        (''Failed to process file scan'' @ long_extension @
         '': [Errno 36] File name too long: /tmp/tmp00000001'' @ long_extension)),
      called Execute example_session, report_staged_fs,
      [process_file_in_background_with_new_session ''/tmp/tmp00000000.pdf'' (Some ''report.pdf'') 1])
   \<and> fileupload_endpoint ([] @ report_file # []) 1 example_session
        alice full_fs ([] :: string background_task list) =
     (Inl (HTTPException 422 ''Failed to process file report.pdf: [Errno 28] No space left on device''),
      called Execute example_session,
      full_fs\<lparr>fs_files := (fs_files full_fs)(''/tmp/tmp00000000.pdf'' \<mapsto> []), tmp_counter := 1\<rparr>,
      [])"
proof -
  have counter: "tmp_counter report_staged_fs = 1"
    by (simp add: report_staged_fs_def)
  have long_name: "''Failed to process file '' @ str_filename (filename long_extension_file) @ '': '' @
        str_exn (Exception (''[Errno 36] File name too long: /tmp/tmp'' @
                        unique_characters (tmp_counter report_staged_fs) @ long_extension)) =
      ''Failed to process file scan'' @ long_extension @
         '': [Errno 36] File name too long: /tmp/tmp00000001'' @ long_extension"
    unfolding counter unique_characters_1
    by (simp add: str_filename_def long_extension_file_def)
  have full_name: "''Failed to process file '' @ str_filename (filename report_file) @ '': '' @
        str_exn (Exception ''[Errno 28] No space left on device'') =
      ''Failed to process file report.pdf: [Errno 28] No space left on device''"
    by (simp add: str_filename_def report_file_def)
  note name_too_long = fileupload_first_failure
    [OF alice_owns_1 loop_report_file stage_long_extension_file, of "[report_file]",
      unfolded long_name]
  note no_space = fileupload_first_failure
    [OF alice_owns_1 loop_nothing stage_report_file_full, of "[]", unfolded full_name]
  show ?thesis
    by (intro conjI alice_owns_1 name_too_long no_space)
qed

subsection \<open>Cleaning up the temporary file\<close>

text \<open>
  C10. In \<^verbatim>\<open>process_file_in_background\<close>: when the load raises, the routine returns with
  the session and the file system untouched and the error logged, so the temporary file is
  still there; the file system changes only if the load returned; and when the load
  returned, the path is gone afterwards whether or not the unlink raised, the ingestion
  routine is called all the same, and the log gains a line only for an ingestion error, never
  for the unlink.
\<close>

theorem process_file_unlink_after_load:
  "(\<forall>e. loader_load fs file_path = Inl e \<longrightarrow>
       process_file_in_background loader_load add_received_file_document
           file_path file_name search_space_id s fs log =
         (s, fs, log @ [''Error processing file in background: '' @ str_exn e]))
   \<and> (fst (snd (process_file_in_background loader_load add_received_file_document
                   file_path file_name search_space_id s fs log)) \<noteq> fs \<longrightarrow>
        (\<exists>docs. loader_load fs file_path = Inr docs))
   \<and> (\<forall>docs. loader_load fs file_path = Inr docs \<longrightarrow>
        fs_files (fst (snd (process_file_in_background loader_load add_received_file_document
                     file_path file_name search_space_id s fs log))) =
          (fs_files fs)(file_path := None)
      \<and> tmp_counter (fst (snd (process_file_in_background loader_load add_received_file_document
                     file_path file_name search_space_id s fs log))) = tmp_counter fs
      \<and> fst (process_file_in_background loader_load add_received_file_document
                     file_path file_name search_space_id s fs log) =
          snd (add_received_file_document s file_name docs search_space_id)
      \<and> snd (snd (process_file_in_background loader_load add_received_file_document
                     file_path file_name search_space_id s fs log)) =
          (case fst (add_received_file_document s file_name docs search_space_id) of
             Inl e \<Rightarrow> log @ [''Error processing file in background: '' @ str_exn e]
           | Inr _ \<Rightarrow> log))"
proof (intro conjI allI impI)
  fix e
  assume "loader_load fs file_path = Inl e"
  then show "process_file_in_background loader_load add_received_file_document
           file_path file_name search_space_id s fs log =
         (s, fs, log @ [''Error processing file in background: '' @ str_exn e])"
    by (simp add: process_file_in_background_def)
next
  assume changed: "fst (snd (process_file_in_background loader_load add_received_file_document
                   file_path file_name search_space_id s fs log)) \<noteq> fs"
  show "\<exists>docs. loader_load fs file_path = Inr docs"
  proof (cases "loader_load fs file_path")
    case (Inl e)
    with changed show ?thesis
      by (simp add: process_file_in_background_def)
  next
    case (Inr docs)
    then show ?thesis by blast
  qed
next
  fix docs
  assume load: "loader_load fs file_path = Inr docs"
  obtain res s1 where add: "add_received_file_document s file_name docs search_space_id = (res, s1)"
    by (cases "add_received_file_document s file_name docs search_space_id")
  let ?fs1 = "case os_unlink file_path fs of Inl _ \<Rightarrow> fs | Inr fs' \<Rightarrow> fs'"
  have run: "process_file_in_background loader_load add_received_file_document
                     file_path file_name search_space_id s fs log =
      (s1, ?fs1, case res of
             Inl e \<Rightarrow> log @ [''Error processing file in background: '' @ str_exn e]
           | Inr _ \<Rightarrow> log)"
    by (cases res) (simp_all add: process_file_in_background_def load add Let_def)
  have files: "fs_files ?fs1 = (fs_files fs)(file_path := None)"
    by (cases "fs_files fs file_path") (auto simp: os_unlink_def)
  have counter: "tmp_counter ?fs1 = tmp_counter fs"
    by (cases "fs_files fs file_path") (simp_all add: os_unlink_def)
  show "fs_files (fst (snd (process_file_in_background loader_load add_received_file_document
                     file_path file_name search_space_id s fs log))) =
          (fs_files fs)(file_path := None)"
    unfolding run using files by simp
  show "tmp_counter (fst (snd (process_file_in_background loader_load add_received_file_document
                     file_path file_name search_space_id s fs log))) = tmp_counter fs"
    unfolding run using counter by simp
  show "fst (process_file_in_background loader_load add_received_file_document
                     file_path file_name search_space_id s fs log) =
          snd (add_received_file_document s file_name docs search_space_id)"
    unfolding run add by simp
  show "snd (snd (process_file_in_background loader_load add_received_file_document
                     file_path file_name search_space_id s fs log)) =
          (case fst (add_received_file_document s file_name docs search_space_id) of
             Inl e \<Rightarrow> log @ [''Error processing file in background: '' @ str_exn e]
           | Inr _ \<Rightarrow> log)"
    unfolding run add by simp
qed

text \<open>
  A failing load leaves the staged file; a load that succeeds removes it; with no file at
  the path the unlink raises and nothing shows.
\<close>

theorem process_file_unlink_after_load_witness:
  "failing_loader staged_fs ''/tmp/tmp0.pdf'' = Inl (Exception ''unsupported file type'')
   \<and> process_file_in_background failing_loader accepting_ingestion
        ''/tmp/tmp0.pdf'' ''report.pdf'' 1 example_session staged_fs [] =
      (example_session, staged_fs,
       [''Error processing file in background: unsupported file type''])
   \<and> fs_files staged_fs ''/tmp/tmp0.pdf'' = Some ''%PDF-1.7''
   \<and> reading_loader staged_fs ''/tmp/tmp0.pdf'' = Inr [''%PDF-1.7'']
   \<and> fs_files (fst (snd (process_file_in_background reading_loader accepting_ingestion
        ''/tmp/tmp0.pdf'' ''report.pdf'' 1 example_session staged_fs []))) ''/tmp/tmp0.pdf'' = None
   \<and> constant_loader empty_fs ''/tmp/tmp0.pdf'' = Inr [''element'']
   \<and> process_file_in_background constant_loader accepting_ingestion
        ''/tmp/tmp0.pdf'' ''report.pdf'' 1 example_session empty_fs [] =
      (example_session, empty_fs, [])"
proof -
  have fail: "failing_loader staged_fs ''/tmp/tmp0.pdf'' = Inl (Exception ''unsupported file type'')"
    by (simp add: failing_loader_def)
  have there: "fs_files staged_fs ''/tmp/tmp0.pdf'' = Some ''%PDF-1.7''"
    by (simp add: staged_fs_def)
  have load: "reading_loader staged_fs ''/tmp/tmp0.pdf'' = Inr [''%PDF-1.7'']"
    by (simp add: reading_loader_def staged_fs_def)
  have const: "constant_loader empty_fs ''/tmp/tmp0.pdf'' = Inr [''element'']"
    by (simp add: constant_loader_def)
  from process_file_unlink_after_load
    [of failing_loader staged_fs "''/tmp/tmp0.pdf''" accepting_ingestion "''report.pdf''" 1
        example_session "[]", THEN conjunct1, rule_format, OF fail]
  have failed: "process_file_in_background failing_loader accepting_ingestion
        ''/tmp/tmp0.pdf'' ''report.pdf'' 1 example_session staged_fs [] =
      (example_session, staged_fs,
       [''Error processing file in background: unsupported file type''])"
    by simp
  from process_file_unlink_after_load
    [of reading_loader staged_fs "''/tmp/tmp0.pdf''" accepting_ingestion "''report.pdf''" 1
        example_session "[]", THEN conjunct2, THEN conjunct2, rule_format, OF load, THEN conjunct1]
  have removed: "fs_files (fst (snd (process_file_in_background reading_loader accepting_ingestion
        ''/tmp/tmp0.pdf'' ''report.pdf'' 1 example_session staged_fs []))) ''/tmp/tmp0.pdf'' = None"
    by simp
  have swallowed: "process_file_in_background constant_loader accepting_ingestion
        ''/tmp/tmp0.pdf'' ''report.pdf'' 1 example_session empty_fs [] =
      (example_session, empty_fs, [])"
    by (simp add: process_file_in_background_def constant_loader_def accepting_ingestion_def
        os_unlink_def empty_fs_def)
  show ?thesis
    by (intro conjI fail failed there load removed const swallowed)
qed

subsection \<open>Pagination of the list\<close>

lemma join_no_space:
  assumes "k \<notin> SearchSpace_id ` set sps"
  shows "[(d, sp). sp \<leftarrow> sps, k = SearchSpace_id sp] = []"
  using assms by (induction sps) simp_all

lemma join_one_document:
  assumes "distinct (map SearchSpace_id sps)"
  shows "map fst (filter (\<lambda>(d, sp). SearchSpace_user_id sp = u)
                   [(d, sp). sp \<leftarrow> sps, k = SearchSpace_id sp]) =
         (if \<exists>sp \<in> set sps. SearchSpace_id sp = k \<and> SearchSpace_user_id sp = u then [d] else [])"
  using assms
proof (induction sps)
  case Nil
  then show ?case by simp
next
  case (Cons sp sps)
  show ?case
  proof (cases "k = SearchSpace_id sp")
    case True
    with Cons.prems have "k \<notin> SearchSpace_id ` set sps"
      by simp
    then have rest: "[(d, sp). sp \<leftarrow> sps, k = SearchSpace_id sp] = []"
      and none: "\<not> (\<exists>sp \<in> set sps. SearchSpace_id sp = k \<and> SearchSpace_user_id sp = u)"
      by (simp_all add: join_no_space image_iff) blast
    from True rest none show ?thesis
      by simp
  next
    case False
    with Cons show ?thesis
      by auto
  qed
qed

lemma join_owned:
  assumes "distinct (map SearchSpace_id sps)"
  shows "map fst (filter (\<lambda>(d, sp). SearchSpace_user_id sp = u)
                   [(d, sp). d \<leftarrow> ds, sp \<leftarrow> sps, Document_search_space_id d = SearchSpace_id sp]) =
         filter (\<lambda>d. \<exists>sp \<in> set sps. SearchSpace_id sp = Document_search_space_id d \<and>
                                    SearchSpace_user_id sp = u) ds"
proof (induction ds)
  case Nil
  then show ?case by simp
next
  case (Cons d ds)
  have "map fst (filter (\<lambda>(d, sp). SearchSpace_user_id sp = u)
                   [(d', sp). d' \<leftarrow> d # ds, sp \<leftarrow> sps, Document_search_space_id d' = SearchSpace_id sp]) =
        map fst (filter (\<lambda>(d, sp). SearchSpace_user_id sp = u)
                   [(d, sp). sp \<leftarrow> sps, Document_search_space_id d = SearchSpace_id sp]) @
        map fst (filter (\<lambda>(d, sp). SearchSpace_user_id sp = u)
                   [(d', sp). d' \<leftarrow> ds, sp \<leftarrow> sps, Document_search_space_id d' = SearchSpace_id sp])"
    by simp
  also have "\<dots> = (if \<exists>sp \<in> set sps. SearchSpace_id sp = Document_search_space_id d \<and>
                              SearchSpace_user_id sp = u then [d] else []) @
        filter (\<lambda>d. \<exists>sp \<in> set sps. SearchSpace_id sp = Document_search_space_id d \<and>
                                    SearchSpace_user_id sp = u) ds"
    unfolding Cons.IH join_one_document [OF assms] ..
  also have "\<dots> = filter (\<lambda>d. \<exists>sp \<in> set sps. SearchSpace_id sp = Document_search_space_id d \<and>
                                    SearchSpace_user_id sp = u) (d # ds)"
    by simp
  finally show ?case .
qed

lemma list_query_rows:
  assumes "distinct (map SearchSpace_id (search_spaces s))"
  shows "scalars (filter (\<lambda>(d, sp). SearchSpace_user_id sp = User_id user)
                    (select_Document_join_SearchSpace s)) = owned_documents s user"
  unfolding scalars_def select_Document_join_SearchSpace_def owned_documents_def owned_by_def
  by (rule join_owned [OF assms])

lemma scalars_take_drop:
  "scalars (take n (drop m rows)) = take n (drop m (scalars rows))"
  by (simp add: scalars_def take_map drop_map)

lemma read_documents_page:
  assumes "distinct (map SearchSpace_id (search_spaces s))"
    and "0 \<le> skip" and "0 \<le> limit" and "int64_range skip" and "int64_range limit"
  shows "read_documents (Some skip) (Some limit) s user =
     (Inr (map to_DocumentRead (take (nat limit) (drop (nat skip) (owned_documents s user)))),
      called Execute s)"
  using assms(2-5)
  by (simp add: read_documents_def execute_list_query_def scalars_take_drop
      list_query_rows [OF assms(1)])

lemma read_documents_refused:
  assumes "skip < 0 \<or> limit < 0 \<or> \<not> int64_range skip \<or> \<not> int64_range limit"
  shows "\<exists>detail. fst (read_documents (Some skip) (Some limit) s user) =
           Inl (HTTPException 500 detail)"
  using assms
  by (auto simp: read_documents_def execute_list_query_def read_documents_except_def)

lemma owned_documents_distinct:
  assumes "distinct (map Document_id (documents s))"
  shows "distinct (map Document_id (owned_documents s user))"
proof -
  from assms have "distinct (map Document_id (scanned_documents s))"
    by (simp add: scanned_documents_def distinct_map)
  then show ?thesis
    unfolding owned_documents_def by (rule distinct_map_filter)
qed

lemma owned_documents_length:
  assumes "documents s2 = documents s" and "search_spaces s2 = search_spaces s"
  shows "length (owned_documents s2 user) = length (owned_documents s user)"
proof -
  have same: "owned_by s2 user = owned_by s user"
    by (rule ext) (simp add: owned_by_def assms(2))
  show ?thesis
    by (simp add: owned_documents_def scanned_documents_def same assms(1) filter_sort)
qed

lemma owned_documents_same_scan:
  assumes "documents s2 = documents s" and "search_spaces s2 = search_spaces s"
    and "scan_key s2 = scan_key s"
  shows "owned_documents s2 user = owned_documents s user"
proof -
  have same: "owned_by s2 user = owned_by s user"
    by (rule ext) (simp add: owned_by_def assms(2))
  show ?thesis
    by (simp add: owned_documents_def scanned_documents_def same assms(1,3))
qed

lemma owned_documents_owned:
  assumes "d \<in> set (owned_documents s user)"
  shows "d \<in> set (documents s) \<and> owned_by s user d"
  using assms by (simp add: owned_documents_def set_scanned_documents)

lemma five_session_owned:
  "owned_documents five_session alice =
     [example_document 1 1, example_document 2 1, example_document 4 1, example_document 5 1,
      example_document 6 1]"
  by (simp add: owned_documents_def owned_by_def scanned_documents_def five_session_def
      example_spaces_def example_document_def alice_def)

lemma five_session_rescanned_owned:
  "owned_documents five_session_rescanned alice =
     [example_document 6 1, example_document 5 1, example_document 4 1, example_document 2 1,
      example_document 1 1]"
  by (simp add: owned_documents_def owned_by_def scanned_documents_def five_session_rescanned_def
      five_session_def example_spaces_def example_document_def alice_def)

lemma five_session_keys: "primary_keys_unique five_session"
  by (simp add: primary_keys_unique_def five_session_def example_spaces_def example_document_def)

lemma five_session_rescanned_tables:
  "documents five_session_rescanned = documents five_session"
  "search_spaces five_session_rescanned = search_spaces five_session"
  by (simp_all add: five_session_rescanned_def)

lemma small_in_range: "int64_range 0" "int64_range 2" "int64_range 300"
  by (simp_all add: int64_range_def)

text \<open>
  C7, as stated, fails: the query has no ORDER BY, and when the database returns the rows of
  the second request in another order than those of the first, the second page is not the
  next two. Alice owns five documents; with the rows by ascending id for \<open>skip=0, limit=2\<close> and
  by descending id for \<open>skip=2, limit=2\<close>, document 2 is on both pages.
\<close>

theorem read_documents_pages_overlap:
  "documents five_session_rescanned = documents five_session
   \<and> search_spaces five_session_rescanned = search_spaces five_session
   \<and> map Document_id (owned_documents five_session alice) = [1, 2, 4, 5, 6]
   \<and> fst (read_documents (Some 0) (Some 2) five_session alice) =
       Inr [to_DocumentRead (example_document 1 1), to_DocumentRead (example_document 2 1)]
   \<and> fst (read_documents (Some 2) (Some 2) five_session_rescanned alice) =
       Inr [to_DocumentRead (example_document 4 1), to_DocumentRead (example_document 2 1)]"
proof -
  have spaces: "distinct (map SearchSpace_id (search_spaces five_session))"
    using five_session_keys by (simp add: primary_keys_unique_def)
  then have spaces': "distinct (map SearchSpace_id (search_spaces five_session_rescanned))"
    by (simp add: five_session_rescanned_tables)
  have ids: "map Document_id (owned_documents five_session alice) = [1, 2, 4, 5, 6]"
    by (simp add: five_session_owned example_document_def)
  have first_page: "fst (read_documents (Some 0) (Some 2) five_session alice) =
       Inr [to_DocumentRead (example_document 1 1), to_DocumentRead (example_document 2 1)]"
    using read_documents_page [OF spaces, of 0 2 alice]
    by (simp add: small_in_range five_session_owned)
  have second_page: "fst (read_documents (Some 2) (Some 2) five_session_rescanned alice) =
       Inr [to_DocumentRead (example_document 4 1), to_DocumentRead (example_document 2 1)]"
    using read_documents_page [OF spaces', of 2 2 alice]
    by (simp add: small_in_range five_session_rescanned_owned)
  show ?thesis
    by (intro conjI five_session_rescanned_tables ids first_page second_page)
qed

text \<open>
  C7, amended. An absent \<^verbatim>\<open>skip\<close> is 0 and an absent \<^verbatim>\<open>limit\<close> is 300. For parameters
  from 0 to the largest 64-bit integer the list is the user's documents, in the order the
  database returns them for this query, without the first \<open>skip\<close> and cut after \<open>limit\<close>;
  for other parameters the answer is a 500; whatever list is returned has at most \<open>limit\<close>
  entries. With five documents owned, \<open>skip=0, limit=2\<close> and \<open>skip=2, limit=2\<close> (the
  second request on session \<open>s2\<close>, which sees the same tables) return two documents each,
  all of them the user's; and when the database returns the rows in the same order for both
  requests, the two pages are together the first four of the user's and no document id is on
  both. Primary keys are unique.
\<close>

theorem read_documents_pagination:
  assumes "primary_keys_unique s"
    and "documents s2 = documents s" and "search_spaces s2 = search_spaces s"
  shows "read_documents skip_param limit_param s user =
           read_documents (Some (case skip_param of None \<Rightarrow> 0 | Some v \<Rightarrow> v))
             (Some (case limit_param of None \<Rightarrow> 300 | Some v \<Rightarrow> v)) s user
       \<and> (0 \<le> skip \<and> 0 \<le> limit \<and> int64_range skip \<and> int64_range limit \<longrightarrow>
            fst (read_documents (Some skip) (Some limit) s user) =
              Inr (map to_DocumentRead
                     (take (nat limit) (drop (nat skip) (owned_documents s user)))))
       \<and> (skip < 0 \<or> limit < 0 \<or> \<not> int64_range skip \<or> \<not> int64_range limit \<longrightarrow>
            (\<exists>detail. fst (read_documents (Some skip) (Some limit) s user) =
               Inl (HTTPException 500 detail)))
       \<and> (\<forall>docs. fst (read_documents skip_param limit_param s user) = Inr docs \<longrightarrow>
            int (length docs) \<le> (case limit_param of None \<Rightarrow> 300 | Some v \<Rightarrow> v))
       \<and> (length (owned_documents s user) = 5 \<longrightarrow>
            (\<exists>page1 page2.
                fst (read_documents (Some 0) (Some 2) s user) = Inr page1
              \<and> fst (read_documents (Some 2) (Some 2) s2 user) = Inr page2
              \<and> length page1 = 2 \<and> length page2 = 2
              \<and> (\<forall>r \<in> set page1 \<union> set page2.
                    \<exists>d \<in> set (documents s). owned_by s user d \<and> r = to_DocumentRead d)
              \<and> (scan_key s2 = scan_key s \<longrightarrow>
                    page1 @ page2 = map to_DocumentRead (take 4 (owned_documents s user))
                  \<and> id_read ` set page1 \<inter> id_read ` set page2 = {})))"
proof -
  from assms(1) have spaces: "distinct (map SearchSpace_id (search_spaces s))"
    and docs: "distinct (map Document_id (documents s))"
    by (simp_all add: primary_keys_unique_def)
  from spaces have spaces2: "distinct (map SearchSpace_id (search_spaces s2))"
    by (simp add: assms(3))
  let ?owned = "owned_documents s user"
  let ?owned2 = "owned_documents s2 user"
  have defaults: "read_documents skip_param limit_param s user =
           read_documents (Some (case skip_param of None \<Rightarrow> 0 | Some v \<Rightarrow> v))
             (Some (case limit_param of None \<Rightarrow> 300 | Some v \<Rightarrow> v)) s user"
    by (simp add: read_documents_def)
  have page: "0 \<le> skip \<and> 0 \<le> limit \<and> int64_range skip \<and> int64_range limit \<longrightarrow>
            fst (read_documents (Some skip) (Some limit) s user) =
              Inr (map to_DocumentRead (take (nat limit) (drop (nat skip) ?owned)))"
    by (simp add: read_documents_page [OF spaces])
  have refused: "skip < 0 \<or> limit < 0 \<or> \<not> int64_range skip \<or> \<not> int64_range limit \<longrightarrow>
            (\<exists>detail. fst (read_documents (Some skip) (Some limit) s user) =
               Inl (HTTPException 500 detail))"
    by (rule impI) (rule read_documents_refused)
  have bound: "\<forall>docs. fst (read_documents skip_param limit_param s user) = Inr docs \<longrightarrow>
            int (length docs) \<le> (case limit_param of None \<Rightarrow> 300 | Some v \<Rightarrow> v)"
  proof (intro allI impI)
    fix docs
    let ?skip = "case skip_param of None \<Rightarrow> 0 | Some v \<Rightarrow> v"
    let ?limit = "case limit_param of None \<Rightarrow> 300 | Some v \<Rightarrow> v"
    assume "fst (read_documents skip_param limit_param s user) = Inr docs"
    then have run: "fst (read_documents (Some ?skip) (Some ?limit) s user) = Inr docs"
      using defaults by simp
    have ok: "\<not> (?skip < 0 \<or> ?limit < 0 \<or> \<not> int64_range ?skip \<or> \<not> int64_range ?limit)"
    proof
      assume "?skip < 0 \<or> ?limit < 0 \<or> \<not> int64_range ?skip \<or> \<not> int64_range ?limit"
      then have "\<exists>detail. fst (read_documents (Some ?skip) (Some ?limit) s user) =
           Inl (HTTPException 500 detail)"
        by (rule read_documents_refused)
      with run show False by auto
    qed
    then have nonneg: "0 \<le> ?skip" "0 \<le> ?limit" and range: "int64_range ?skip" "int64_range ?limit"
      by auto
    from read_documents_page [OF spaces nonneg range, of user] run
    have "docs = map to_DocumentRead (take (nat ?limit) (drop (nat ?skip) ?owned))"
      by simp
    then have "length docs \<le> nat ?limit"
      by simp
    with nonneg show "int (length docs) \<le> ?limit"
      by linarith
  qed
  have five: "length ?owned = 5 \<longrightarrow>
            (\<exists>page1 page2.
                fst (read_documents (Some 0) (Some 2) s user) = Inr page1
              \<and> fst (read_documents (Some 2) (Some 2) s2 user) = Inr page2
              \<and> length page1 = 2 \<and> length page2 = 2
              \<and> (\<forall>r \<in> set page1 \<union> set page2.
                    \<exists>d \<in> set (documents s). owned_by s user d \<and> r = to_DocumentRead d)
              \<and> (scan_key s2 = scan_key s \<longrightarrow>
                    page1 @ page2 = map to_DocumentRead (take 4 ?owned)
                  \<and> id_read ` set page1 \<inter> id_read ` set page2 = {}))"
  proof
    assume len: "length ?owned = 5"
    then have len2: "length ?owned2 = 5"
      using owned_documents_length [OF assms(2,3), of user] by simp
    let ?page1 = "map to_DocumentRead (take 2 ?owned)"
    let ?page2 = "map to_DocumentRead (take 2 (drop 2 ?owned2))"
    have p1: "fst (read_documents (Some 0) (Some 2) s user) = Inr ?page1"
      using read_documents_page [OF spaces, of 0 2 user] by (simp add: small_in_range)
    have p2: "fst (read_documents (Some 2) (Some 2) s2 user) = Inr ?page2"
      using read_documents_page [OF spaces2, of 2 2 user] by (simp add: small_in_range)
    have l1: "length ?page1 = 2"
      using len by simp
    have l2: "length ?page2 = 2"
      using len2 by simp
    have owned2: "d \<in> set (documents s) \<and> owned_by s user d" if "d \<in> set ?owned2" for d
    proof -
      from owned_documents_owned [OF that] show ?thesis
        by (simp add: assms(2) owned_by_def assms(3))
    qed
    have theirs: "\<forall>r \<in> set ?page1 \<union> set ?page2.
                    \<exists>d \<in> set (documents s). owned_by s user d \<and> r = to_DocumentRead d"
    proof
      fix r
      assume "r \<in> set ?page1 \<union> set ?page2"
      then consider d where "d \<in> set (take 2 ?owned)" "r = to_DocumentRead d"
        | d where "d \<in> set (take 2 (drop 2 ?owned2))" "r = to_DocumentRead d"
        by auto
      then show "\<exists>d \<in> set (documents s). owned_by s user d \<and> r = to_DocumentRead d"
      proof cases
        case 1
        from 1(1) have "d \<in> set ?owned"
          by (rule in_set_takeD)
        from owned_documents_owned [OF this] 1(2) show ?thesis
          by blast
      next
        case 2
        from 2(1) have "d \<in> set ?owned2"
          by (meson in_set_takeD in_set_dropD)
        from owned2 [OF this] 2(2) show ?thesis
          by blast
      qed
    qed
    have stable: "scan_key s2 = scan_key s \<longrightarrow>
                    ?page1 @ ?page2 = map to_DocumentRead (take 4 ?owned)
                  \<and> id_read ` set ?page1 \<inter> id_read ` set ?page2 = {}"
    proof
      assume "scan_key s2 = scan_key s"
      from owned_documents_same_scan [OF assms(2,3) this]
      have same: "?owned2 = ?owned" .
      have "take (2 + 2) ?owned = take 2 ?owned @ take 2 (drop 2 ?owned)"
        by (rule take_add)
      then have cat: "?page1 @ ?page2 = map to_DocumentRead (take 4 ?owned)"
        unfolding same by simp
      have ids: "map id_read (map to_DocumentRead xs) = map Document_id xs" for xs
        by (simp add: to_DocumentRead_def)
      have "distinct (map Document_id ?owned)"
        using docs by (rule owned_documents_distinct)
      then have "distinct (take 4 (map Document_id ?owned))"
        by (rule distinct_take)
      then have "distinct (map id_read (?page1 @ ?page2))"
        unfolding cat ids by (simp add: take_map)
      then have apart: "id_read ` set ?page1 \<inter> id_read ` set ?page2 = {}"
        unfolding map_append distinct_append set_map by blast
      from cat apart show "?page1 @ ?page2 = map to_DocumentRead (take 4 ?owned)
                  \<and> id_read ` set ?page1 \<inter> id_read ` set ?page2 = {}"
        by (intro conjI)
    qed
    show "\<exists>page1 page2.
                fst (read_documents (Some 0) (Some 2) s user) = Inr page1
              \<and> fst (read_documents (Some 2) (Some 2) s2 user) = Inr page2
              \<and> length page1 = 2 \<and> length page2 = 2
              \<and> (\<forall>r \<in> set page1 \<union> set page2.
                    \<exists>d \<in> set (documents s). owned_by s user d \<and> r = to_DocumentRead d)
              \<and> (scan_key s2 = scan_key s \<longrightarrow>
                    page1 @ page2 = map to_DocumentRead (take 4 ?owned)
                  \<and> id_read ` set page1 \<inter> id_read ` set page2 = {})"
      by (rule exI [of _ ?page1], rule exI [of _ ?page2])
        (intro conjI p1 p2 l1 l2 theirs stable)
  qed
  from defaults page refused bound five show ?thesis
    by (intro conjI)
qed

text \<open>Alice owns five of the six documents of \<open>five_session\<close>; the third row is bob's.\<close>

theorem read_documents_pagination_witness:
  "primary_keys_unique five_session
   \<and> length (owned_documents five_session alice) = 5
   \<and> fst (read_documents None None five_session alice) =
       fst (read_documents (Some 0) (Some 300) five_session alice)
   \<and> fst (read_documents (Some 0) (Some 2) five_session alice) =
       Inr [to_DocumentRead (example_document 1 1), to_DocumentRead (example_document 2 1)]
   \<and> fst (read_documents (Some 2) (Some 2) five_session alice) =
       Inr [to_DocumentRead (example_document 4 1), to_DocumentRead (example_document 5 1)]
   \<and> (\<exists>detail. fst (read_documents (Some 0) (Some 9223372036854775808) five_session alice) =
         Inl (HTTPException 500 detail))
   \<and> (\<exists>page1 page2.
          fst (read_documents (Some 0) (Some 2) five_session alice) = Inr page1
        \<and> fst (read_documents (Some 2) (Some 2) five_session alice) = Inr page2
        \<and> length page1 = 2 \<and> length page2 = 2
        \<and> page1 @ page2 = map to_DocumentRead (take 4 (owned_documents five_session alice))
        \<and> id_read ` set page1 \<inter> id_read ` set page2 = {})"
proof -
  have len: "length (owned_documents five_session alice) = 5"
    by (simp add: five_session_owned)
  note t = read_documents_pagination [OF five_session_keys refl refl, where user = alice]
  from t [where skip_param = None and limit_param = None, THEN conjunct1]
  have defaults: "fst (read_documents None None five_session alice) =
       fst (read_documents (Some 0) (Some 300) five_session alice)"
    by simp
  from t [where skip = 0 and limit = 2, THEN conjunct2, THEN conjunct1]
  have first_page: "fst (read_documents (Some 0) (Some 2) five_session alice) =
       Inr [to_DocumentRead (example_document 1 1), to_DocumentRead (example_document 2 1)]"
    by (simp add: five_session_owned small_in_range)
  from t [where skip = 2 and limit = 2, THEN conjunct2, THEN conjunct1]
  have second_page: "fst (read_documents (Some 2) (Some 2) five_session alice) =
       Inr [to_DocumentRead (example_document 4 1), to_DocumentRead (example_document 5 1)]"
    by (simp add: five_session_owned small_in_range)
  have big: "\<not> int64_range 9223372036854775808"
    by (simp add: int64_range_def)
  from t [where skip = 0 and limit = 9223372036854775808,
      THEN conjunct2, THEN conjunct2, THEN conjunct1] big
  have refused: "\<exists>detail. fst (read_documents (Some 0) (Some 9223372036854775808) five_session alice) =
         Inl (HTTPException 500 detail)"
    by simp
  from t [THEN conjunct2, THEN conjunct2, THEN conjunct2, THEN conjunct2, rule_format, OF len]
  obtain page1 page2 where p:
    "fst (read_documents (Some 0) (Some 2) five_session alice) = Inr page1"
    "fst (read_documents (Some 2) (Some 2) five_session alice) = Inr page2"
    "length page1 = 2" "length page2 = 2"
    and stable: "scan_key five_session = scan_key five_session \<longrightarrow>
        page1 @ page2 = map to_DocumentRead (take 4 (owned_documents five_session alice))
      \<and> id_read ` set page1 \<inter> id_read ` set page2 = {}"
    by (elim exE conjE)
  from stable have q:
    "page1 @ page2 = map to_DocumentRead (take 4 (owned_documents five_session alice))"
    "id_read ` set page1 \<inter> id_read ` set page2 = {}"
    by simp_all
  have pages: "\<exists>page1 page2.
          fst (read_documents (Some 0) (Some 2) five_session alice) = Inr page1
        \<and> fst (read_documents (Some 2) (Some 2) five_session alice) = Inr page2
        \<and> length page1 = 2 \<and> length page2 = 2
        \<and> page1 @ page2 = map to_DocumentRead (take 4 (owned_documents five_session alice))
        \<and> id_read ` set page1 \<inter> id_read ` set page2 = {}"
    by (rule exI [of _ page1], rule exI [of _ page2]) (intro conjI p q)
  show ?thesis
    by (intro conjI five_session_keys len defaults first_page second_page refused pages)
qed

end
